theory Spec2Isabelle
  imports
    Main
    "HOL-Library.Word"
    "HOL-Library.AList"
    "HOL-Library.Char_ord"
    "HOL-Library.List_Lexorder"
    "HOL-Library.Product_Lexorder"
begin

section \<open>The task record\<close>

text \<open>
  \<^verbatim>\<open>type Task struct\<close> of \<^verbatim>\<open>main.go\<close>: five Go strings and one \<^verbatim>\<open>int64\<close>.
  The field \<^verbatim>\<open>Id\<close> is written \<open>Id'\<close>, since \<open>Id\<close> is the identity relation of HOL.
\<close>

record Task =
  Id' :: string
  Name :: string
  Description :: string
  Timestamp :: "64 word"
  TaskerId :: string
  WorkerId :: string

section \<open>Decimal text of an \<^verbatim>\<open>int64\<close>\<close>

text \<open>
  The client library writes an \<^verbatim>\<open>int64\<close> argument of a command with
  \<^verbatim>\<open>strconv.AppendInt(b, v, 10)\<close>: a minus sign for a negative value, then the decimal
  digits of the magnitude without leading zeros.
\<close>

fun digits10 :: "nat \<Rightarrow> string" where
  "digits10 n =
     (if n < 10 then [char_of (48 + n)]
      else digits10 (n div 10) @ [char_of (48 + n mod 10)])"

declare digits10.simps [simp del]

definition FormatInt :: "64 word \<Rightarrow> string" where
  "FormatInt w =
     (let i = sint w
      in if i < 0 then CHR ''-'' # digits10 (nat (- i)) else digits10 (nat i))"

text \<open>
  \<^verbatim>\<open>strconv.ParseUint(s, 10, 64)\<close> and \<^verbatim>\<open>strconv.ParseInt(s, 10, 64)\<close> of the Go
  standard library. Both return a value together with an optional \<^verbatim>\<open>*NumError\<close>, whose
  \<^verbatim>\<open>Err\<close> is \<^verbatim>\<open>ErrSyntax\<close> or \<^verbatim>\<open>ErrRange\<close>. In base 10 every byte outside
  \<^verbatim>\<open>'0'..'9'\<close> ends in a syntax error (a letter is a digit of value at least 10, which
  is not below the base; an underscore is accepted in base 0 only). The loop returns at
  the first byte that fails, so an overflow seen before a bad byte is a range error.
  With a syntax error the value is 0; with a range error it is the value of largest
  magnitude of the size and sign, \<open>2 ^ 64 - 1\<close> from \<^verbatim>\<open>ParseUint\<close> and \<open>2 ^ 63 - 1\<close>
  or \<open>- (2 ^ 63)\<close> from \<^verbatim>\<open>ParseInt\<close>.
\<close>

datatype NumError = ErrSyntax | ErrRange

definition maxUint64 :: nat where
  "maxUint64 = 2 ^ 64 - 1"

fun ParseUint_loop :: "nat \<Rightarrow> string \<Rightarrow> nat \<times> NumError option" where
  "ParseUint_loop n [] = (n, None)"
| "ParseUint_loop n (c # cs) =
     (if 48 \<le> (of_char c :: nat) \<and> (of_char c :: nat) \<le> 57 then
        (let d = (of_char c :: nat) - 48 in
         if n \<ge> maxUint64 div 10 + 1 then (maxUint64, Some ErrRange)
         else
           (let n10 = n * 10; n1 = (n10 + d) mod 2 ^ 64 in
            if n1 < n10 \<or> n1 > maxUint64 then (maxUint64, Some ErrRange)
            else ParseUint_loop n1 cs))
      else (0, Some ErrSyntax))"

definition ParseUint :: "string \<Rightarrow> nat \<times> NumError option" where
  "ParseUint s = (if s = [] then (0, Some ErrSyntax) else ParseUint_loop 0 s)"

definition ParseInt :: "string \<Rightarrow> 64 word \<times> NumError option" where
  "ParseInt s0 =
     (if s0 = [] then (0, Some ErrSyntax)
      else
        (let neg = (hd s0 = CHR ''-'');
             s = (if hd s0 = CHR ''+'' \<or> neg then tl s0 else s0);
             (un, err) = ParseUint s
         in if err = Some ErrSyntax then (0, err)
            else if \<not> neg \<and> un \<ge> 2 ^ 63 then (word_of_nat (2 ^ 63 - 1), Some ErrRange)
            else if neg \<and> un > 2 ^ 63 then (- word_of_nat (2 ^ 63), Some ErrRange)
            else (if neg then - word_of_nat un else word_of_nat un, None)))"

text \<open>
  The shape of a text, to say what \<^verbatim>\<open>strconv.ParseInt\<close> makes of it: whether it starts
  with a minus sign, what follows an optional sign, the decimal digits that part starts
  with and the number they denote, and whether the whole text is a decimal integer, an
  optional sign followed by one or more digits and nothing else.
\<close>

definition is_digit :: "char \<Rightarrow> bool" where
  "is_digit c = (48 \<le> (of_char c :: nat) \<and> (of_char c :: nat) \<le> 57)"

definition negative :: "string \<Rightarrow> bool" where
  "negative s = (s \<noteq> [] \<and> hd s = CHR ''-'')"

definition unsigned_part :: "string \<Rightarrow> string" where
  "unsigned_part s = (if s \<noteq> [] \<and> (hd s = CHR ''+'' \<or> hd s = CHR ''-'') then tl s else s)"

definition leading_digits :: "string \<Rightarrow> string" where
  "leading_digits s = takeWhile is_digit (unsigned_part s)"

definition decimal_value :: "string \<Rightarrow> nat" where
  "decimal_value ds = foldl (\<lambda>n c. n * 10 + ((of_char c :: nat) - 48)) 0 ds"

definition decimal_integer :: "string \<Rightarrow> bool" where
  "decimal_integer s = (unsigned_part s \<noteq> [] \<and> list_all is_digit (unsigned_part s))"

definition denoted :: "string \<Rightarrow> int" where
  "denoted s =
     (if negative s then - int (decimal_value (unsigned_part s))
      else int (decimal_value (unsigned_part s)))"

section \<open>The score of an index entry\<close>

text \<open>
  \<^verbatim>\<open>persistTask\<close> builds the score as \<^verbatim>\<open>float64(task.Timestamp)\<close>. The conversion of
  an \<^verbatim>\<open>int64\<close> to \<^verbatim>\<open>float64\<close> keeps 53 significant bits and rounds to the nearest
  representable value, ties to even; the result is always an integer, so the score is
  modelled by its exact value as an \<open>int\<close>.
\<close>

fun bit_len :: "nat \<Rightarrow> nat" where
  "bit_len n = (if n = 0 then 0 else Suc (bit_len (n div 2)))"

declare bit_len.simps [simp del]

definition float64_of_int64 :: "64 word \<Rightarrow> int" where
  "float64_of_int64 w =
     (let x = sint w; a = nat \<bar>x\<bar>
      in if a \<le> 2 ^ 53 then x
         else
           (let e = bit_len a - 53;
                q = a div 2 ^ e;
                r = a mod 2 ^ e;
                h = 2 ^ (e - 1);
                q' = (if r > h \<or> (r = h \<and> odd q) then q + 1 else q)
            in sgn x * int (q' * 2 ^ e)))"

section \<open>The store behind the client\<close>

text \<open>
  The global \<^verbatim>\<open>client\<close> of \<^verbatim>\<open>main.go\<close> is a connection to a key-value backend. Its
  state is the field maps (one per key, the empty one standing for a key that does not
  exist), the ordered sets (one per name, members with their scores), the outcomes the
  backend will give to the commands still to come (\<open>None\<close>: the command is carried out;
  \<open>Some err\<close>: it is refused with that error and changes nothing; an exhausted list: every
  further command is carried out), and the commands issued so far, in order.
\<close>

type_synonym fields = "(string \<times> string) list"

type_synonym zset = "(string \<times> int) list"

datatype StoreError = StoreError string

fun Error :: "StoreError \<Rightarrow> string" where
  "Error (StoreError msg) = msg"

datatype command =
    HSET string fields
  | HGETALL string
  | UNLINK string
  | ZADD string int string
  | ZREM string string
  | ZRANGE string int int

record backend =
  hashes :: "string \<Rightarrow> fields"
  zsets :: "string \<Rightarrow> zset"
  script :: "StoreError option list"
  trace :: "command list"

definition outcome :: "backend \<Rightarrow> StoreError option" where
  "outcome b = (case script b of [] \<Rightarrow> None | r # _ \<Rightarrow> r)"

definition issue :: "command \<Rightarrow> backend \<Rightarrow> StoreError option \<times> backend" where
  "issue cmd b = (outcome b, b\<lparr>script := tl (script b), trace := trace b @ [cmd]\<rparr>)"

definition available :: "nat \<Rightarrow> backend \<Rightarrow> bool" where
  "available n b = list_all (\<lambda>r. r = None) (take n (script b))"

text \<open>
  The six methods of the client that \<^verbatim>\<open>main.go\<close> calls belong to an external library
  and are not part of the repository; each is modelled from the Store Adapter of the spec
  (section 4.1). A key is one name in the backend whatever it holds.
\<close>

text \<open>
  Modelled from the spec: \<open>setFields(key, fieldsAndValues)\<close>, the method \<^verbatim>\<open>HSet\<close>, which
  is missing from the source. It creates the field map or merges into it, field by field
  from left to right, and fails with a \<open>StoreError\<close> when the backend is unavailable.
\<close>

definition hset_merge :: "fields \<Rightarrow> fields \<Rightarrow> fields" where
  "hset_merge old fvs = foldl (\<lambda>m (f, v). AList.update f v m) old fvs"

definition HSet :: "string \<Rightarrow> fields \<Rightarrow> backend \<Rightarrow> StoreError option \<times> backend" where
  "HSet key fvs b =
     (case issue (HSET key fvs) b of
        (Some err, b') \<Rightarrow> (Some err, b')
      | (None, b') \<Rightarrow>
          (None, b'\<lparr>hashes := (hashes b')(key := hset_merge (hashes b' key) fvs)\<rparr>))"

text \<open>
  Modelled from the spec: \<open>getAllFields(key)\<close>, the method \<^verbatim>\<open>HGetAll\<close>, which is missing
  from the source. It returns all fields of the key; no field at all is the signal that
  the key does not exist, and is not an error.
\<close>

definition HGetAll :: "string \<Rightarrow> backend \<Rightarrow> (StoreError + fields) \<times> backend" where
  "HGetAll key b =
     (case issue (HGETALL key) b of
        (Some err, b') \<Rightarrow> (Inl err, b')
      | (None, b') \<Rightarrow> (Inr (hashes b' key), b'))"

text \<open>
  Modelled from the spec: \<open>removeKey(key)\<close>, the method \<^verbatim>\<open>Unlink\<close>, which is missing from
  the source. It deletes the key and is idempotent: removing a key that does not exist is
  not an error. The backend removes the key whatever it holds, so an ordered set of that
  name goes as well.
\<close>

definition Unlink :: "string \<Rightarrow> backend \<Rightarrow> StoreError option \<times> backend" where
  "Unlink key b =
     (case issue (UNLINK key) b of
        (Some err, b') \<Rightarrow> (Some err, b')
      | (None, b') \<Rightarrow>
          (None, b'\<lparr>hashes := (hashes b')(key := []), zsets := (zsets b')(key := [])\<rparr>))"

text \<open>
  Modelled from the spec: \<open>addToOrderedSet(setName, score, member)\<close>, the method
  \<^verbatim>\<open>ZAdd\<close>, which is missing from the source. It inserts the member, or updates its
  score when the set holds it already, without duplicating it.
\<close>

definition ZAdd :: "string \<Rightarrow> int \<Rightarrow> string \<Rightarrow> backend \<Rightarrow> StoreError option \<times> backend" where
  "ZAdd name score member b =
     (case issue (ZADD name score member) b of
        (Some err, b') \<Rightarrow> (Some err, b')
      | (None, b') \<Rightarrow>
          (None, b'\<lparr>zsets := (zsets b')(name := AList.update member score (zsets b' name))\<rparr>))"

text \<open>
  Modelled from the spec: \<open>removeFromOrderedSet(setName, member)\<close>, the method \<^verbatim>\<open>ZRem\<close>,
  which is missing from the source. It removes the member and is idempotent.
\<close>

definition ZRem :: "string \<Rightarrow> string \<Rightarrow> backend \<Rightarrow> StoreError option \<times> backend" where
  "ZRem name member b =
     (case issue (ZREM name member) b of
        (Some err, b') \<Rightarrow> (Some err, b')
      | (None, b') \<Rightarrow>
          (None, b'\<lparr>zsets := (zsets b')(name := AList.delete member (zsets b' name))\<rparr>))"

text \<open>
  Modelled from the spec: \<open>rangeOrderedSet(setName, start, end)\<close>, the method \<^verbatim>\<open>ZRange\<close>,
  which is missing from the source. It returns the members sorted ascending by score;
  members of equal score come in the order of their bytes, which is how the backend breaks
  the tie that the spec leaves to it. Both bounds are inclusive, a negative bound counts
  from the end, and \<open>(0, -1)\<close> is the entire set.
\<close>

definition by_score :: "zset \<Rightarrow> string list" where
  "by_score z = map fst (sort_key (\<lambda>(member, score). (score, member)) z)"

definition range_slice :: "'a list \<Rightarrow> int \<Rightarrow> int \<Rightarrow> 'a list" where
  "range_slice xs start stop =
     (let n = int (length xs);
          s0 = (if start < 0 then start + n else start);
          e0 = (if stop < 0 then stop + n else stop);
          s1 = (if s0 < 0 then 0 else s0);
          e1 = (if e0 \<ge> n then n - 1 else e0)
      in if s1 > e1 \<or> s1 \<ge> n then [] else take (nat (e1 - s1 + 1)) (drop (nat s1) xs))"

definition ZRange :: "string \<Rightarrow> int \<Rightarrow> int \<Rightarrow> backend \<Rightarrow> (StoreError + string list) \<times> backend" where
  "ZRange name start stop b =
     (case issue (ZRANGE name start stop) b of
        (Some err, b') \<Rightarrow> (Inl err, b')
      | (None, b') \<Rightarrow> (Inr (range_slice (by_score (zsets b' name)) start stop), b'))"

section \<open>The functions of \<^verbatim>\<open>main.go\<close>\<close>

text \<open>
  A Go function that returns \<^verbatim>\<open>error\<close> returns \<open>StoreError option\<close> here (\<open>None\<close> is
  \<^verbatim>\<open>nil\<close>); one that returns a value and an error returns a sum; a \<^verbatim>\<open>*Task\<close> that may
  be \<^verbatim>\<open>nil\<close> is a \<open>Task option\<close>. Each function also returns the backend as it leaves it.
  Indexing a Go map with a key it does not hold gives the empty string.
\<close>

definition map_index :: "fields \<Rightarrow> string \<Rightarrow> string" where
  "map_index m k = (case map_of m k of None \<Rightarrow> [] | Some v \<Rightarrow> v)"

definition persistTask :: "Task \<Rightarrow> backend \<Rightarrow> StoreError option \<times> backend" where
  "persistTask task b =
     (case HSet (''task:'' @ Id' task)
             [(''Id'', Id' task),
              (''Name'', Name task),
              (''Description'', Description task),
              (''Timestamp'', FormatInt (Timestamp task)),
              (''TaskerId'', TaskerId task),
              (''WorkerId'', WorkerId task)] b of
        (Some err, b1) \<Rightarrow> (Some err, b1)
      | (None, b1) \<Rightarrow>
          (case ZAdd ''tasks'' (float64_of_int64 (Timestamp task)) (Id' task) b1 of
             (Some err, b2) \<Rightarrow> (Some err, b2)
           | (None, b2) \<Rightarrow> (None, b2)))"

text \<open>
  In \<^verbatim>\<open>fetchTask\<close> the two checks \<^verbatim>\<open>hgetAll.Err()\<close> and \<^verbatim>\<open>hgetAll.Result()\<close> read the
  same error of the same command, so they are one case here. The error of
  \<^verbatim>\<open>strconv.ParseInt\<close> is dropped and its value kept.
\<close>

definition fetchTask :: "string \<Rightarrow> backend \<Rightarrow> (StoreError + Task option) \<times> backend" where
  "fetchTask id' b =
     (case HGetAll (''task:'' @ id') b of
        (Inl err, b') \<Rightarrow> (Inl err, b')
      | (Inr ires, b') \<Rightarrow>
          if length ires = 0 then (Inr None, b')
          else
            (let timestamp = fst (ParseInt (map_index ires ''Timestamp''))
             in (Inr (Some \<lparr>Id' = map_index ires ''Id'',
                            Name = map_index ires ''Name'',
                            Description = map_index ires ''Description'',
                            Timestamp = timestamp,
                            TaskerId = map_index ires ''TaskerId'',
                            WorkerId = map_index ires ''WorkerId''\<rparr>), b')))"

definition deleteTask :: "string \<Rightarrow> backend \<Rightarrow> StoreError option \<times> backend" where
  "deleteTask id' b =
     (case Unlink (''task:'' @ id') b of
        (Some err, b1) \<Rightarrow> (Some err, b1)
      | (None, b1) \<Rightarrow>
          (case ZRem ''tasks'' id' b1 of
             (Some err, b2) \<Rightarrow> (Some err, b2)
           | (None, b2) \<Rightarrow> (None, b2)))"

fun fetchTasks_loop ::
  "string list \<Rightarrow> Task option list \<Rightarrow> backend \<Rightarrow> (StoreError + Task option list) \<times> backend"
where
  "fetchTasks_loop [] tasks b = (Inr tasks, b)"
| "fetchTasks_loop (id' # ids) tasks b =
     (case fetchTask id' b of
        (Inl err, b') \<Rightarrow> (Inl err, b')
      | (Inr task, b') \<Rightarrow> fetchTasks_loop ids (tasks @ [task]) b')"

definition fetchTasks :: "backend \<Rightarrow> (StoreError + Task option list) \<times> backend" where
  "fetchTasks b =
     (case ZRange ''tasks'' 0 (- 1) b of
        (Inl err, b') \<Rightarrow> (Inl err, b')
      | (Inr ids, b') \<Rightarrow> fetchTasks_loop ids [] b')"

text \<open>
  \<^verbatim>\<open>createTask\<close> draws the id from \<^verbatim>\<open>uuid.New().String()\<close> and the timestamp from
  \<^verbatim>\<open>time.Now().Unix()\<close>; both are arguments here. It returns nothing and prints one line,
  which is the first component of the result.
\<close>

definition createTask ::
  "string \<Rightarrow> 64 word \<Rightarrow> string \<Rightarrow> string \<Rightarrow> string \<Rightarrow> string \<Rightarrow> backend \<Rightarrow> string \<times> backend"
where
  "createTask uuid now taskerId workerId name description b =
     (let task = \<lparr>Id' = uuid, Name = name, Description = description,
                   Timestamp = now, TaskerId = taskerId, WorkerId = workerId\<rparr>
      in case persistTask task b of
           (Some err, b') \<Rightarrow>
             (''Error adding task for '' @ workerId @ '': '' @ Error err @ [CHR 0x0A], b')
         | (None, b') \<Rightarrow>
             (''Added task for '' @ workerId @ '' from '' @ taskerId @ [CHR 0x0A], b'))"

text \<open>
  The handler of \<^verbatim>\<open>POST /task\<close> in \<^verbatim>\<open>setupRouter\<close>. \<^verbatim>\<open>c.BindJSON(&task)\<close> belongs to
  the web framework: the task it leaves and its error message, if any, are arguments. The
  reply is the status code and the three entries of the JSON object. When the binding
  fails, \<^verbatim>\<open>BindJSON\<close> has already sent the status 400 before it returns, and the
  \<^verbatim>\<open>c.JSON(http.StatusInternalServerError, ...)\<close> of the handler cannot replace a status
  that is written: the reply goes out as 400 with the body the handler gives.
\<close>

record reply =
  status :: nat
  reply_task :: Task
  created :: bool
  message :: string

definition POST_task ::
  "Task \<Rightarrow> string option \<Rightarrow> string \<Rightarrow> 64 word \<Rightarrow> backend \<Rightarrow> reply \<times> backend"
where
  "POST_task bound bind_err uuid now b =
     (case bind_err of
        Some msg \<Rightarrow>
          (\<lparr>status = 400, reply_task = bound, created = False, message = msg\<rparr>, b)
      | None \<Rightarrow>
          (let task = bound\<lparr>Id' := uuid, Timestamp := now\<rparr>
           in case persistTask task b of
                (Some err, b') \<Rightarrow>
                  (\<lparr>status = 500, reply_task = task, created = False,
                    message = Error err\<rparr>, b')
              | (None, b') \<Rightarrow>
                  (\<lparr>status = 201, reply_task = task, created = True,
                    message = ''Task Created Successfully''\<rparr>, b')))"

section \<open>States of the store\<close>

text \<open>
  The states reached from an empty store by operations that ran to their end without an
  error; \<open>P\<close> restricts the tasks that are created. Reads are included: they change the
  record of commands only.
\<close>

inductive reachable :: "(Task \<Rightarrow> bool) \<Rightarrow> backend \<Rightarrow> bool" for P :: "Task \<Rightarrow> bool" where
  start: "hashes b = (\<lambda>_. []) \<Longrightarrow> zsets b = (\<lambda>_. []) \<Longrightarrow> reachable P b"
| create: "reachable P b \<Longrightarrow> P task \<Longrightarrow> persistTask task b = (None, b') \<Longrightarrow> reachable P b'"
| delete: "reachable P b \<Longrightarrow> deleteTask id' b = (None, b') \<Longrightarrow> reachable P b'"
| fetch: "reachable P b \<Longrightarrow> fetchTask id' b = (r, b') \<Longrightarrow> reachable P b'"
| list: "reachable P b \<Longrightarrow> fetchTasks b = (rs, b') \<Longrightarrow> reachable P b'"

text \<open>
  The correspondence of index and field maps: an id is a member of the ordered set
  \<^verbatim>\<open>tasks\<close> exactly when the key \<^verbatim>\<open>task:<id>\<close> holds a field map.
\<close>

definition members :: "backend \<Rightarrow> string set" where
  "members b = fst ` set (zsets b ''tasks'')"


text \<open>
  The value \<^verbatim>\<open>fetchTask\<close> returns for a field map it has read: \<^verbatim>\<open>nil\<close> for the
  empty one, else the task built from the six entries.
\<close>

definition resolved :: "fields \<Rightarrow> Task option" where
  "resolved ires =
     (if ires = [] then None
      else Some \<lparr>Id' = map_index ires ''Id'',
                  Name = map_index ires ''Name'',
                  Description = map_index ires ''Description'',
                  Timestamp = fst (ParseInt (map_index ires ''Timestamp'')),
                  TaskerId = map_index ires ''TaskerId'',
                  WorkerId = map_index ires ''WorkerId''\<rparr>)"

text \<open>The store that holds nothing, with a backend that carries out every command.\<close>

definition empty_store :: backend where
  "empty_store = \<lparr>hashes = (\<lambda>_. []), zsets = (\<lambda>_. []), script = [], trace = []\<rparr>"

text \<open>
  The index agrees with the field maps on the timestamps: every member of \<^verbatim>\<open>tasks\<close> has
  a field map, and the timestamp \<^verbatim>\<open>fetchTask\<close> reads from it is the member's score.
\<close>

definition index_agrees :: "backend \<Rightarrow> bool" where
  "index_agrees b =
     (\<forall>(member, score) \<in> set (zsets b ''tasks'').
        \<exists>task. resolved (hashes b (''task:'' @ member)) = Some task \<and>
               sint (Timestamp task) = score)"

text \<open>The timestamps that \<^verbatim>\<open>float64\<close> holds exactly whatever their low bits.\<close>

definition exact_timestamp :: "Task \<Rightarrow> bool" where
  "exact_timestamp task = (\<bar>sint (Timestamp task)\<bar> \<le> 2 ^ 53)"

text \<open>
  The persisted layout: a key that holds a field map is \<^verbatim>\<open>task:<id>\<close> for the id stored
  in the field \<^verbatim>\<open>Id\<close>, the field map has exactly the six fields of a task, and the
  only ordered set is \<^verbatim>\<open>tasks\<close>.
\<close>

definition layout :: "backend \<Rightarrow> bool" where
  "layout b =
     ((\<forall>k. hashes b k \<noteq> [] \<longrightarrow>
          k = ''task:'' @ map_index (hashes b k) ''Id'' \<and>
          fst ` set (hashes b k) =
            {''Id'', ''Name'', ''Description'', ''Timestamp'', ''TaskerId'', ''WorkerId''}) \<and>
      (\<forall>n. zsets b n \<noteq> [] \<longrightarrow> n = ''tasks''))"

section \<open>Example states\<close>

text \<open>
  Two tasks, created in the order opposite to their timestamps; and the state in which
  the deletion of the first was refused at its second command, so that the index still
  holds an id whose field map is gone.
\<close>

definition later_task :: Task where
  "later_task = \<lparr>Id' = ''a'', Name = ''Task for Worker1'',
                  Description = ''Description for Worker1'', Timestamp = 1700000300,
                  TaskerId = ''tsk-1'', WorkerId = ''worker1''\<rparr>"

definition earlier_task :: Task where
  "earlier_task = \<lparr>Id' = ''b'', Name = ''Task for Worker3'',
                    Description = ''Description for Worker3'', Timestamp = 1700000100,
                    TaskerId = ''tsk-1'', WorkerId = ''worker3''\<rparr>"

definition two_tasks :: backend where
  "two_tasks = snd (persistTask earlier_task (snd (persistTask later_task empty_store)))"

definition dangling :: backend where
  "dangling =
     snd (deleteTask ''a'' (two_tasks\<lparr>script := [None, Some (StoreError ''timeout'')]\<rparr>))"

text \<open>
  A field map written by another client of the same store, whose \<^verbatim>\<open>Timestamp\<close> is the
  decimal text of \<open>2 ^ 63\<close>, one more than the largest \<^verbatim>\<open>int64\<close>.
\<close>

definition overflowing :: backend where
  "overflowing =
     snd (HSet ''task:x'' [(''Id'', ''x''), (''Timestamp'', ''9223372036854775808'')]
            empty_store)"

text \<open>
  Two tasks whose timestamps \<open>2 ^ 53 + 1\<close> and \<open>2 ^ 53\<close> have the same \<^verbatim>\<open>float64\<close>,
  created one after the other in an empty store.
\<close>

definition odd_task :: Task where
  "odd_task = \<lparr>Id' = ''a'', Name = ''first'', Description = ''created first'',
                Timestamp = 9007199254740993, TaskerId = ''tsk-1'', WorkerId = ''worker1''\<rparr>"

definition even_task :: Task where
  "even_task = \<lparr>Id' = ''b'', Name = ''second'', Description = ''created second'',
                 Timestamp = 9007199254740992, TaskerId = ''tsk-1'', WorkerId = ''worker2''\<rparr>"

definition rounded_pair :: backend where
  "rounded_pair = snd (persistTask even_task (snd (persistTask odd_task empty_store)))"

section \<open>Decimal text: formatting and parsing agree\<close>


lemma digit_chars:
  "char_of (48::nat) = CHR ''0''" "char_of (49::nat) = CHR ''1''" "char_of (50::nat) = CHR ''2''"
  "char_of (51::nat) = CHR ''3''" "char_of (52::nat) = CHR ''4''" "char_of (53::nat) = CHR ''5''"
  "char_of (54::nat) = CHR ''6''" "char_of (55::nat) = CHR ''7''" "char_of (56::nat) = CHR ''8''"
  "char_of (57::nat) = CHR ''9''"
  by code_simp+

lemma of_char_digit: "d < 10 \<Longrightarrow> (of_char (char_of (48 + d :: nat)) :: nat) = 48 + d"
  by (simp add: of_char_of)

lemma ParseUint_loop_snoc:
  "ParseUint_loop n (cs @ [c]) =
     (case ParseUint_loop n cs of (m, None) \<Rightarrow> ParseUint_loop m [c] | (m, Some e) \<Rightarrow> (m, Some e))"
  by (induction cs arbitrary: n) (simp_all add: Let_def)

lemma ParseUint_loop_digits10:
  "n < 2 ^ 64 \<Longrightarrow> ParseUint_loop 0 (digits10 n) = (n, None)"
proof (induction n rule: digits10.induct)
  case (1 n)
  show ?case
  proof (cases "n < 10")
    case True
    then show ?thesis
      using "1.prems" by (simp add: digits10.simps [of n] of_char_digit maxUint64_def)
  next
    case False
    have small: "n div 10 < 2 ^ 64" using "1.prems" by simp
    have ih: "ParseUint_loop 0 (digits10 (n div 10)) = (n div 10, None)"
      using "1.IH" False small by simp
    have d: "n mod 10 < 10" by simp
    have cut: "\<not> (n div 10 \<ge> maxUint64 div 10 + 1)"
      using "1.prems" by (simp add: maxUint64_def)
    have recompose: "(n div 10 * 10 + n mod 10) mod 2 ^ 64 = n"
      using "1.prems" by simp
    have below: "\<not> n < n div 10 * 10" by simp
    have digit: "n mod 10 \<le> 9" by arith
    show ?thesis
      using False cut "1.prems" below digit
      by (simp add: digits10.simps [of n] ParseUint_loop_snoc ih of_char_digit recompose
          maxUint64_def del: One_nat_def)
  qed
qed

lemma digits10_not_Nil: "digits10 n \<noteq> []"
  by (subst digits10.simps) simp

lemma hd_digits10: "48 \<le> (of_char (hd (digits10 n)) :: nat) \<and> (of_char (hd (digits10 n)) :: nat) \<le> 57"
proof (induction n rule: digits10.induct)
  case (1 n)
  show ?case
  proof (cases "n < 10")
    case True
    then show ?thesis by (simp add: digits10.simps [of n] of_char_digit)
  next
    case False
    then show ?thesis
      using "1.IH" by (simp add: digits10.simps [of n] digits10_not_Nil)
  qed
qed

lemma hd_digits10_sign: "hd (digits10 n) \<noteq> CHR ''+''" "hd (digits10 n) \<noteq> CHR ''-''"
  using hd_digits10 [of n] by auto

lemma ParseUint_digits10: "n < 2 ^ 64 \<Longrightarrow> ParseUint (digits10 n) = (n, None)"
  by (simp add: ParseUint_def digits10_not_Nil ParseUint_loop_digits10)

lemma ParseInt_FormatInt: "ParseInt (FormatInt w) = (w, None)"
proof (cases "sint w < 0")
  case True
  have lo: "- (2 ^ 63) \<le> sint w" using sint_ge [of w] by simp
  have m: "nat (- sint w) \<le> 2 ^ 63" using lo by simp
  have m': "nat (- sint w) < 2 ^ 64" using m by simp
  have "(word_of_nat (nat (- sint w)) :: 64 word) = word_of_int (- sint w)"
    using True by (simp only: of_nat_nat)
  then have w: "- (word_of_nat (nat (- sint w)) :: 64 word) = w"
    by simp
  show ?thesis
    using True m w
    by (simp add: ParseInt_def FormatInt_def ParseUint_digits10 [OF m'])
next
  case False
  have hi: "sint w < 2 ^ 63" using sint_lt [of w] by simp
  have m: "nat (sint w) < 2 ^ 63" using hi False by simp
  have m': "nat (sint w) < 2 ^ 64" using m by simp
  have "(word_of_nat (nat (sint w)) :: 64 word) = word_of_int (sint w)"
    using False by (simp only: of_nat_nat)
  then have w: "(word_of_nat (nat (sint w)) :: 64 word) = w"
    by simp
  show ?thesis
    using False m w
    by (simp add: ParseInt_def FormatInt_def ParseUint_digits10 [OF m'] digits10_not_Nil
        hd_digits10_sign)
qed

section \<open>The backend's answers\<close>

lemma available_Suc:
  "available (Suc n) b \<longleftrightarrow> outcome b = None \<and> available n (b\<lparr>script := tl (script b)\<rparr>)"
  by (cases "script b") (simp_all add: available_def outcome_def)

lemma available_0 [simp]: "available 0 b"
  by (simp add: available_def)

lemma available_update [simp]:
  "available n (b\<lparr>trace := t\<rparr>) = available n b"
  "available n (b\<lparr>hashes := h\<rparr>) = available n b"
  "available n (b\<lparr>zsets := z\<rparr>) = available n b"
  by (simp_all add: available_def)

lemma outcome_update [simp]:
  "outcome (b\<lparr>trace := t\<rparr>) = outcome b"
  "outcome (b\<lparr>hashes := h\<rparr>) = outcome b"
  "outcome (b\<lparr>zsets := z\<rparr>) = outcome b"
  by (simp_all add: outcome_def)

lemma key_not_index [simp]: "''task:'' @ i \<noteq> ''tasks''" "''tasks'' \<noteq> ''task:'' @ i"
  by auto

lemma range_slice_all [simp]: "range_slice xs 0 (- 1) = xs"
  by (cases xs) (simp_all add: range_slice_def Let_def)

lemmas store_defs = HSet_def HGetAll_def Unlink_def ZAdd_def ZRem_def ZRange_def issue_def

section \<open>What each function of the source does to the store\<close>

lemma persistTask_refused:
  "outcome b = Some err \<Longrightarrow>
   persistTask task b =
     (Some err, b\<lparr>script := tl (script b),
                  trace := trace b @ [HSET (''task:'' @ Id' task)
                    [(''Id'', Id' task), (''Name'', Name task),
                     (''Description'', Description task),
                     (''Timestamp'', FormatInt (Timestamp task)),
                     (''TaskerId'', TaskerId task), (''WorkerId'', WorkerId task)]]\<rparr>)"
  by (simp add: persistTask_def store_defs)

lemma persistTask_data:
  "persistTask task b = (None, b') \<Longrightarrow>
   hashes b' = (hashes b)(''task:'' @ Id' task :=
       hset_merge (hashes b (''task:'' @ Id' task))
         [(''Id'', Id' task), (''Name'', Name task),
          (''Description'', Description task),
          (''Timestamp'', FormatInt (Timestamp task)),
          (''TaskerId'', TaskerId task), (''WorkerId'', WorkerId task)]) \<and>
   zsets b' = (zsets b)(''tasks'' :=
       AList.update (Id' task) (float64_of_int64 (Timestamp task)) (zsets b ''tasks''))"
  by (auto simp add: persistTask_def store_defs split: option.splits)

lemma persistTask_fst:
  "available 2 b \<Longrightarrow> fst (persistTask task b) = None"
  by (auto simp add: persistTask_def store_defs numeral_2_eq_2 available_Suc split: option.splits)

lemma persistTask_script:
  "script (snd (persistTask task b)) =
     (if outcome b = None then tl (tl (script b)) else tl (script b))"
  by (auto simp add: persistTask_def store_defs split: option.splits)

lemma deleteTask_data:
  "deleteTask id' b = (None, b') \<Longrightarrow>
   hashes b' = (hashes b)(''task:'' @ id' := []) \<and>
   zsets b' = (zsets b)(''task:'' @ id' := [],
                        ''tasks'' := AList.delete id' (zsets b ''tasks''))"
  by (auto simp add: deleteTask_def store_defs split: option.splits)

lemma deleteTask_fst:
  "available 2 b \<Longrightarrow> fst (deleteTask id' b) = None"
  by (auto simp add: deleteTask_def store_defs numeral_2_eq_2 available_Suc split: option.splits)

lemma fetchTask_data:
  "hashes (snd (fetchTask id' b)) = hashes b \<and> zsets (snd (fetchTask id' b)) = zsets b"
  by (auto simp add: fetchTask_def store_defs Let_def split: option.splits)

lemma fetchTask_script:
  "script (snd (fetchTask id' b)) = tl (script b)"
  by (auto simp add: fetchTask_def store_defs Let_def split: option.splits)

lemma fetchTask_result:
  "fst (fetchTask id' b) =
     (case outcome b of
        Some err \<Rightarrow> Inl err
      | None \<Rightarrow>
          (let ires = hashes b (''task:'' @ id')
           in if ires = [] then Inr None
              else Inr (Some \<lparr>Id' = map_index ires ''Id'',
                             Name = map_index ires ''Name'',
                             Description = map_index ires ''Description'',
                             Timestamp = fst (ParseInt (map_index ires ''Timestamp'')),
                             TaskerId = map_index ires ''TaskerId'',
                             WorkerId = map_index ires ''WorkerId''\<rparr>)))"
  by (auto simp add: fetchTask_def store_defs Let_def split: option.splits)

lemma fetchTask_resolved:
  "outcome b = None \<Longrightarrow> fst (fetchTask id' b) = Inr (resolved (hashes b (''task:'' @ id')))"
  by (simp add: fetchTask_result resolved_def Let_def)

lemma fetchTask_refused:
  "outcome b = Some err \<Longrightarrow> fst (fetchTask id' b) = Inl err"
  by (simp add: fetchTask_result)

lemma available_script: "script b1 = script b2 \<Longrightarrow> available n b1 = available n b2"
  by (simp add: available_def)

lemma available_after_fetchTask:
  "available (Suc n) b \<Longrightarrow> available n (snd (fetchTask id' b))"
  using available_script [of "snd (fetchTask id' b)" "b\<lparr>script := tl (script b)\<rparr>" n]
  by (simp add: fetchTask_script available_Suc)

lemma fetchTasks_loop_data:
  "hashes (snd (fetchTasks_loop ids acc b)) = hashes b \<and>
   zsets (snd (fetchTasks_loop ids acc b)) = zsets b"
proof (induction ids arbitrary: acc b)
  case Nil
  show ?case by simp
next
  case (Cons i ids)
  show ?case
  proof (cases "fetchTask i b")
    case (Pair r b1)
    have same: "hashes b1 = hashes b \<and> zsets b1 = zsets b"
      using fetchTask_data [of i b] Pair by simp
    show ?thesis
    proof (cases r)
      case (Inl err)
      then show ?thesis using Pair same by simp
    next
      case (Inr task)
      then show ?thesis using Pair same Cons.IH [of "acc @ [task]" b1] by simp
    qed
  qed
qed

lemma fetchTasks_loop_available:
  "available (length ids) b \<Longrightarrow>
   fst (fetchTasks_loop ids acc b) =
     Inr (acc @ map (\<lambda>i. resolved (hashes b (''task:'' @ i))) ids)"
proof (induction ids arbitrary: acc b)
  case Nil
  show ?case by simp
next
  case (Cons i ids)
  obtain r b1 where step: "fetchTask i b = (r, b1)"
    by (cases "fetchTask i b")
  have free: "outcome b = None"
    using Cons.prems by (simp add: available_Suc)
  have r: "r = Inr (resolved (hashes b (''task:'' @ i)))"
    using fetchTask_resolved [OF free, of i] step by simp
  have rest: "available (length ids) b1"
    using available_after_fetchTask [of "length ids" b i] Cons.prems step by simp
  have same: "hashes b1 = hashes b"
    using fetchTask_data [of i b] step by simp
  show ?case
    using step r Cons.IH [OF rest, of "acc @ [resolved (hashes b (''task:'' @ i))]"] same
    by simp
qed

lemma fetchTasks_loop_refused:
  "script b = replicate j None @ Some err # rest \<Longrightarrow> j < length ids \<Longrightarrow>
   fst (fetchTasks_loop ids acc b) = Inl err"
proof (induction ids arbitrary: j acc b)
  case Nil
  then show ?case by simp
next
  case (Cons i ids)
  obtain r b1 where step: "fetchTask i b = (r, b1)"
    by (cases "fetchTask i b")
  show ?case
  proof (cases j)
    case 0
    then have "outcome b = Some err"
      using Cons.prems by (simp add: outcome_def)
    then show ?thesis
      using fetchTask_refused [of b err i] step by simp
  next
    case (Suc j')
    then have free: "outcome b = None"
      using Cons.prems by (simp add: outcome_def)
    have r: "r = Inr (resolved (hashes b (''task:'' @ i)))"
      using fetchTask_resolved [OF free, of i] step by simp
    have s1: "script b1 = replicate j' None @ Some err # rest"
      using fetchTask_script [of i b] step Cons.prems Suc by simp
    have "j' < length ids" using Cons.prems Suc by simp
    then show ?thesis
      using step r Cons.IH [OF s1] by simp
  qed
qed

lemma ZRange_tasks:
  "outcome b = None \<Longrightarrow>
   ZRange ''tasks'' 0 (- 1) b =
     (Inr (by_score (zsets b ''tasks'')),
      b\<lparr>script := tl (script b), trace := trace b @ [ZRANGE ''tasks'' 0 (- 1)]\<rparr>)"
  by (simp add: store_defs)

lemma length_by_score [simp]: "length (by_score z) = length z"
  by (simp add: by_score_def)

lemma set_by_score [simp]: "set (by_score z) = fst ` set z"
  by (simp add: by_score_def)

lemma fetchTasks_available:
  assumes "available (Suc (length (zsets b ''tasks''))) b"
  shows "fst (fetchTasks b) =
           Inr (map (\<lambda>i. resolved (hashes b (''task:'' @ i))) (by_score (zsets b ''tasks'')))"
proof -
  have free: "outcome b = None"
    using assms by (simp add: available_Suc)
  have rest: "available (length (by_score (zsets b ''tasks'')))
                (b\<lparr>script := tl (script b), trace := trace b @ [ZRANGE ''tasks'' 0 (- 1)]\<rparr>)"
    using assms by (simp add: available_Suc)
  show ?thesis
    using fetchTasks_loop_available [OF rest, of "[]"]
    by (simp add: fetchTasks_def ZRange_tasks [OF free])
qed

lemma fetchTasks_refused:
  assumes "script b = replicate k None @ Some err # rest"
    and "k \<le> length (zsets b ''tasks'')"
  shows "fst (fetchTasks b) = Inl err"
proof (cases k)
  case 0
  then have "outcome b = Some err"
    using assms by (simp add: outcome_def)
  then show ?thesis
    by (simp add: fetchTasks_def store_defs)
next
  case (Suc j)
  then have free: "outcome b = None"
    using assms by (simp add: outcome_def)
  have s1: "script (b\<lparr>script := tl (script b), trace := trace b @ [ZRANGE ''tasks'' 0 (- 1)]\<rparr>)
              = replicate j None @ Some err # rest"
    using assms Suc by simp
  have "j < length (by_score (zsets b ''tasks''))"
    using assms Suc by simp
  then show ?thesis
    using fetchTasks_loop_refused [OF s1, of "by_score (zsets b ''tasks'')" "[]"]
    by (simp add: fetchTasks_def ZRange_tasks [OF free])
qed

lemma fetchTasks_data:
  "hashes (snd (fetchTasks b)) = hashes b \<and> zsets (snd (fetchTasks b)) = zsets b"
proof (cases "outcome b")
  case None
  show ?thesis
    using fetchTasks_loop_data
      [of "by_score (zsets b ''tasks'')" "[]"
          "b\<lparr>script := tl (script b), trace := trace b @ [ZRANGE ''tasks'' 0 (- 1)]\<rparr>"]
    by (simp add: fetchTasks_def ZRange_tasks [OF None])
next
  case (Some err)
  then show ?thesis
    by (simp add: fetchTasks_def store_defs)
qed

section \<open>What is read back from a persisted task\<close>

lemma hset_merge_six:
  "hset_merge old [(f1, v1), (f2, v2), (f3, v3), (f4, v4), (f5, v5), (f6, v6)] =
     AList.update f6 v6 (AList.update f5 v5 (AList.update f4 v4
       (AList.update f3 v3 (AList.update f2 v2 (AList.update f1 v1 old)))))"
  by (simp add: hset_merge_def)

lemma resolved_persisted:
  "resolved (hset_merge old
      [(''Id'', Id' task), (''Name'', Name task), (''Description'', Description task),
       (''Timestamp'', FormatInt (Timestamp task)),
       (''TaskerId'', TaskerId task), (''WorkerId'', WorkerId task)]) = Some task"
  by (simp add: hset_merge_six resolved_def map_index_def update_conv' ParseInt_FormatInt)

section \<open>Round trip of a created task\<close>

text \<open>
  Claim C1. Creating a task from \<open>taskerId\<close>, \<open>workerId\<close>, \<open>name\<close> and \<open>description\<close>,
  with the id and the timestamp the server assigns, and then fetching it by that id gives
  a task with the same name, description, tasker and worker and with the assigned id and
  timestamp. The backend carries out the three commands involved.
\<close>

theorem create_then_fetch:
  assumes "available 3 b"
  shows "fst (createTask uuid now taskerId workerId name description b) =
           ''Added task for '' @ workerId @ '' from '' @ taskerId @ [CHR 0x0A] \<and>
         fst (fetchTask uuid (snd (createTask uuid now taskerId workerId name description b))) =
           Inr (Some \<lparr>Id' = uuid, Name = name, Description = description,
                      Timestamp = now, TaskerId = taskerId, WorkerId = workerId\<rparr>)"
proof -
  let ?task = "\<lparr>Id' = uuid, Name = name, Description = description,
                 Timestamp = now, TaskerId = taskerId, WorkerId = workerId\<rparr>"
  obtain r b' where p: "persistTask ?task b = (r, b')"
    by (cases "persistTask ?task b")
  have three: "outcome b = None" "outcome (b\<lparr>script := tl (script b)\<rparr>) = None"
    "outcome (b\<lparr>script := tl (tl (script b))\<rparr>) = None"
    using assms by (simp_all add: numeral_3_eq_3 available_Suc)
  have two: "available 2 b"
    using assms by (simp add: numeral_3_eq_3 numeral_2_eq_2 available_Suc)
  have r: "r = None"
    using persistTask_fst [OF two, of ?task] p by simp
  have h: "hashes b' (''task:'' @ uuid) =
      hset_merge (hashes b (''task:'' @ uuid))
        [(''Id'', Id' ?task), (''Name'', Name ?task), (''Description'', Description ?task),
         (''Timestamp'', FormatInt (Timestamp ?task)),
         (''TaskerId'', TaskerId ?task), (''WorkerId'', WorkerId ?task)]"
    using persistTask_data [of ?task b b'] p r by simp
  have "script b' = tl (tl (script b))"
    using persistTask_script [of ?task b] p three by simp
  then have free: "outcome b' = None"
    using three by (simp add: outcome_def)
  have "fst (fetchTask uuid b') = Inr (Some ?task)"
    unfolding fetchTask_resolved [OF free] h resolved_persisted ..
  then show ?thesis
    using p r by (simp add: createTask_def)
qed

theorem create_then_fetch_witness:
  "available 3 empty_store \<and>
   fst (fetchTask ''id-1'' (snd (createTask ''id-1'' 1700000000 ''tsk-1'' ''worker1''
      ''Task for Worker1'' ''Description for Worker1'' empty_store))) =
     Inr (Some \<lparr>Id' = ''id-1'', Name = ''Task for Worker1'',
                Description = ''Description for Worker1'', Timestamp = 1700000000,
                TaskerId = ''tsk-1'', WorkerId = ''worker1''\<rparr>)"
proof -
  have a: "available 3 empty_store"
    by (simp add: available_def empty_store_def)
  show ?thesis
    using a create_then_fetch [OF a, of "''id-1''" 1700000000 "''tsk-1''" "''worker1''"
        "''Task for Worker1''" "''Description for Worker1''"]
    by simp
qed

section \<open>The commands each function issues\<close>

lemma persistTask_available:
  assumes "available 2 b"
  shows "fst (persistTask task b) = None"
    and "trace (snd (persistTask task b)) =
           trace b @
           [HSET (''task:'' @ Id' task)
              [(''Id'', Id' task), (''Name'', Name task),
               (''Description'', Description task),
               (''Timestamp'', FormatInt (Timestamp task)),
               (''TaskerId'', TaskerId task), (''WorkerId'', WorkerId task)],
            ZADD ''tasks'' (float64_of_int64 (Timestamp task)) (Id' task)]"
proof -
  have two: "outcome b = None" "outcome (b\<lparr>script := tl (script b)\<rparr>) = None"
    using assms by (simp_all add: numeral_2_eq_2 available_Suc)
  show "fst (persistTask task b) = None"
    using two by (simp add: persistTask_def store_defs)
  show "trace (snd (persistTask task b)) =
           trace b @
           [HSET (''task:'' @ Id' task)
              [(''Id'', Id' task), (''Name'', Name task),
               (''Description'', Description task),
               (''Timestamp'', FormatInt (Timestamp task)),
               (''TaskerId'', TaskerId task), (''WorkerId'', WorkerId task)],
            ZADD ''tasks'' (float64_of_int64 (Timestamp task)) (Id' task)]"
    using two by (simp add: persistTask_def store_defs)
qed

lemma persistTask_second_refused:
  assumes "script b = None # Some err # rest"
  shows "fst (persistTask task b) = Some err"
    and "hashes (snd (persistTask task b)) =
           (hashes b)(''task:'' @ Id' task :=
             hset_merge (hashes b (''task:'' @ Id' task))
               [(''Id'', Id' task), (''Name'', Name task),
                (''Description'', Description task),
                (''Timestamp'', FormatInt (Timestamp task)),
                (''TaskerId'', TaskerId task), (''WorkerId'', WorkerId task)])"
    and "zsets (snd (persistTask task b)) = zsets b"
  using assms by (simp_all add: persistTask_def store_defs outcome_def)

lemma deleteTask_available:
  assumes "available 2 b"
  shows "fst (deleteTask id' b) = None"
    and "trace (snd (deleteTask id' b)) =
           trace b @ [UNLINK (''task:'' @ id'), ZREM ''tasks'' id']"
    and "hashes (snd (deleteTask id' b)) = (hashes b)(''task:'' @ id' := [])"
    and "zsets (snd (deleteTask id' b)) ''tasks'' = AList.delete id' (zsets b ''tasks'')"
    and "script (snd (deleteTask id' b)) = tl (tl (script b))"
proof -
  have two: "outcome b = None" "outcome (b\<lparr>script := tl (script b)\<rparr>) = None"
    using assms by (simp_all add: numeral_2_eq_2 available_Suc)
  show "fst (deleteTask id' b) = None"
    using two by (simp add: deleteTask_def store_defs)
  show "trace (snd (deleteTask id' b)) =
           trace b @ [UNLINK (''task:'' @ id'), ZREM ''tasks'' id']"
    using two by (simp add: deleteTask_def store_defs)
  show "hashes (snd (deleteTask id' b)) = (hashes b)(''task:'' @ id' := [])"
    using two by (simp add: deleteTask_def store_defs)
  show "zsets (snd (deleteTask id' b)) ''tasks'' = AList.delete id' (zsets b ''tasks'')"
    using two by (simp add: deleteTask_def store_defs)
  show "script (snd (deleteTask id' b)) = tl (tl (script b))"
    using two by (simp add: deleteTask_def store_defs)
qed

lemma deleteTask_refused:
  assumes "outcome b = Some err"
  shows "fst (deleteTask id' b) = Some err"
    and "trace (snd (deleteTask id' b)) = trace b @ [UNLINK (''task:'' @ id')]"
    and "hashes (snd (deleteTask id' b)) = hashes b"
    and "zsets (snd (deleteTask id' b)) = zsets b"
  using assms by (simp_all add: deleteTask_def store_defs)

lemma deleteTask_second_refused:
  assumes "script b = None # Some err # rest"
  shows "fst (deleteTask id' b) = Some err"
    and "hashes (snd (deleteTask id' b)) = (hashes b)(''task:'' @ id' := [])"
    and "zsets (snd (deleteTask id' b)) ''tasks'' = zsets b ''tasks''"
  using assms by (simp_all add: deleteTask_def store_defs outcome_def)

lemma available_drop: "available (m + n) b \<Longrightarrow> available n (b\<lparr>script := drop m (script b)\<rparr>)"
  by (auto simp add: available_def list_all_iff take_drop add.commute dest!: in_set_dropD)

lemma fetchTask_trace:
  "trace (snd (fetchTask id' b)) = trace b @ [HGETALL (''task:'' @ id')]"
  by (auto simp add: fetchTask_def store_defs Let_def split: option.splits)

lemma fetchTasks_loop_trace:
  "available (length ids) b \<Longrightarrow>
   trace (snd (fetchTasks_loop ids acc b)) = trace b @ map (\<lambda>i. HGETALL (''task:'' @ i)) ids"
proof (induction ids arbitrary: acc b)
  case Nil
  show ?case by simp
next
  case (Cons i ids)
  obtain r b1 where step: "fetchTask i b = (r, b1)"
    by (cases "fetchTask i b")
  have free: "outcome b = None"
    using Cons.prems by (simp add: available_Suc)
  have r: "r = Inr (resolved (hashes b (''task:'' @ i)))"
    using fetchTask_resolved [OF free, of i] step by simp
  have rest: "available (length ids) b1"
    using available_after_fetchTask [of "length ids" b i] Cons.prems step by simp
  have t1: "trace b1 = trace b @ [HGETALL (''task:'' @ i)]"
    using fetchTask_trace [of i b] step by simp
  show ?case
    using step r Cons.IH [OF rest, of "acc @ [resolved (hashes b (''task:'' @ i))]"] t1
    by simp
qed

lemma fetchTasks_trace:
  assumes "available (Suc (length (zsets b ''tasks''))) b"
  shows "trace (snd (fetchTasks b)) =
           trace b @ ZRANGE ''tasks'' 0 (- 1) #
             map (\<lambda>i. HGETALL (''task:'' @ i)) (by_score (zsets b ''tasks''))"
proof -
  have free: "outcome b = None"
    using assms by (simp add: available_Suc)
  have rest: "available (length (by_score (zsets b ''tasks'')))
                (b\<lparr>script := tl (script b), trace := trace b @ [ZRANGE ''tasks'' 0 (- 1)]\<rparr>)"
    using assms by (simp add: available_Suc)
  show ?thesis
    using fetchTasks_loop_trace [OF rest, of "[]"]
    by (simp add: fetchTasks_def ZRange_tasks [OF free])
qed

lemma available_mono: "m \<le> n \<Longrightarrow> available n b \<Longrightarrow> available m b"
  using set_take_subset_set_take [of m n "script b"]
  by (auto simp add: available_def list_all_iff)

section \<open>Delete: order of the two removals, errors, repetition\<close>

text \<open>
  Claim C5. Deleting an id removes the field map (\<open>UNLINK\<close>) before the member of the
  index (\<open>ZREM\<close>) and issues no other command, so it never looks whether the record
  exists. A refusal of the first command is returned and nothing is removed; a refusal of
  the second is returned with the field map already removed. With the backend carrying
  out its commands the deletion returns no error whatever the store holds, in particular
  for an id that was never stored, and a second deletion of the same id returns no error
  either and leaves the store as the first one left it.
\<close>

theorem delete_in_order_and_idempotent:
  "(available 2 b \<longrightarrow>
      fst (deleteTask id' b) = None \<and>
      trace (snd (deleteTask id' b)) =
        trace b @ [UNLINK (''task:'' @ id'), ZREM ''tasks'' id'] \<and>
      hashes (snd (deleteTask id' b)) = (hashes b)(''task:'' @ id' := []) \<and>
      zsets (snd (deleteTask id' b)) ''tasks'' = AList.delete id' (zsets b ''tasks'')) \<and>
   (outcome b = Some err \<longrightarrow>
      fst (deleteTask id' b) = Some err \<and>
      trace (snd (deleteTask id' b)) = trace b @ [UNLINK (''task:'' @ id')] \<and>
      hashes (snd (deleteTask id' b)) = hashes b \<and>
      zsets (snd (deleteTask id' b)) = zsets b) \<and>
   (script b = None # Some err # rest \<longrightarrow>
      fst (deleteTask id' b) = Some err \<and>
      hashes (snd (deleteTask id' b)) = (hashes b)(''task:'' @ id' := []) \<and>
      zsets (snd (deleteTask id' b)) ''tasks'' = zsets b ''tasks'') \<and>
   (available 2 b \<and> hashes b (''task:'' @ id') = [] \<and> id' \<notin> members b \<longrightarrow>
      fst (deleteTask id' b) = None \<and>
      hashes (snd (deleteTask id' b)) = hashes b \<and>
      zsets (snd (deleteTask id' b)) ''tasks'' = zsets b ''tasks'') \<and>
   (available 4 b \<longrightarrow>
      fst (deleteTask id' b) = None \<and>
      fst (deleteTask id' (snd (deleteTask id' b))) = None \<and>
      hashes (snd (deleteTask id' (snd (deleteTask id' b)))) =
        hashes (snd (deleteTask id' b)) \<and>
      zsets (snd (deleteTask id' (snd (deleteTask id' b)))) ''tasks'' =
        zsets (snd (deleteTask id' b)) ''tasks'')"
proof (intro conjI impI)
  assume ok: "available 2 b"
  show "fst (deleteTask id' b) = None"
    by (rule deleteTask_available(1) [OF ok])
  show "trace (snd (deleteTask id' b)) =
        trace b @ [UNLINK (''task:'' @ id'), ZREM ''tasks'' id']"
    by (rule deleteTask_available(2) [OF ok])
  show "hashes (snd (deleteTask id' b)) = (hashes b)(''task:'' @ id' := [])"
    by (rule deleteTask_available(3) [OF ok])
  show "zsets (snd (deleteTask id' b)) ''tasks'' = AList.delete id' (zsets b ''tasks'')"
    by (rule deleteTask_available(4) [OF ok])
next
  assume refused: "outcome b = Some err"
  show "fst (deleteTask id' b) = Some err"
    by (rule deleteTask_refused(1) [OF refused])
  show "trace (snd (deleteTask id' b)) = trace b @ [UNLINK (''task:'' @ id')]"
    by (rule deleteTask_refused(2) [OF refused])
  show "hashes (snd (deleteTask id' b)) = hashes b"
    by (rule deleteTask_refused(3) [OF refused])
  show "zsets (snd (deleteTask id' b)) = zsets b"
    by (rule deleteTask_refused(4) [OF refused])
next
  assume second: "script b = None # Some err # rest"
  show "fst (deleteTask id' b) = Some err"
    by (rule deleteTask_second_refused(1) [OF second])
  show "hashes (snd (deleteTask id' b)) = (hashes b)(''task:'' @ id' := [])"
    by (rule deleteTask_second_refused(2) [OF second])
  show "zsets (snd (deleteTask id' b)) ''tasks'' = zsets b ''tasks''"
    by (rule deleteTask_second_refused(3) [OF second])
next
  assume absent: "available 2 b \<and> hashes b (''task:'' @ id') = [] \<and> id' \<notin> members b"
  then have ok: "available 2 b" by simp
  show "fst (deleteTask id' b) = None"
    by (rule deleteTask_available(1) [OF ok])
  have "(hashes b)(''task:'' @ id' := []) = hashes b"
    using absent by (simp add: fun_upd_idem)
  then show "hashes (snd (deleteTask id' b)) = hashes b"
    by (simp add: deleteTask_available(3) [OF ok])
  have "AList.delete id' (zsets b ''tasks'') = zsets b ''tasks''"
    using absent by (simp add: members_def delete_id)
  then show "zsets (snd (deleteTask id' b)) ''tasks'' = zsets b ''tasks''"
    by (simp add: deleteTask_available(4) [OF ok])
next
  assume four: "available 4 b"
  have ok: "available 2 b"
    using available_mono [of 2 4 b] four by simp
  have "available 2 (b\<lparr>script := drop 2 (script b)\<rparr>)"
    using available_drop [of 2 2 b] four by simp
  then have ok': "available 2 (snd (deleteTask id' b))"
    using available_script [of "snd (deleteTask id' b)" "b\<lparr>script := drop 2 (script b)\<rparr>" 2]
    by (simp add: deleteTask_available(5) [OF ok] drop_Suc numeral_2_eq_2 drop_tl)
  show "fst (deleteTask id' b) = None"
    by (rule deleteTask_available(1) [OF ok])
  show "fst (deleteTask id' (snd (deleteTask id' b))) = None"
    by (rule deleteTask_available(1) [OF ok'])
  show "hashes (snd (deleteTask id' (snd (deleteTask id' b)))) =
        hashes (snd (deleteTask id' b))"
    by (simp add: deleteTask_available(3) [OF ok'] deleteTask_available(3) [OF ok])
  show "zsets (snd (deleteTask id' (snd (deleteTask id' b)))) ''tasks'' =
        zsets (snd (deleteTask id' b)) ''tasks''"
    by (simp add: deleteTask_available(4) [OF ok'] deleteTask_available(4) [OF ok]
        delete_idem)
qed

theorem delete_in_order_and_idempotent_witness:
  "available 4 empty_store \<and> available 2 empty_store \<and>
   hashes empty_store (''task:'' @ ''ghost'') = [] \<and> ''ghost'' \<notin> members empty_store \<and>
   fst (deleteTask ''ghost'' empty_store) = None \<and>
   fst (deleteTask ''ghost'' (snd (deleteTask ''ghost'' empty_store))) = None \<and>
   trace (snd (deleteTask ''ghost'' empty_store)) = [UNLINK ''task:ghost'', ZREM ''tasks'' ''ghost''] \<and>
   outcome (empty_store\<lparr>script := [Some (StoreError ''timeout'')]\<rparr>)
     = Some (StoreError ''timeout'') \<and>
   fst (deleteTask ''ghost'' (empty_store\<lparr>script := [Some (StoreError ''timeout'')]\<rparr>))
     = Some (StoreError ''timeout'') \<and>
   script (empty_store\<lparr>script := [None, Some (StoreError ''timeout'')]\<rparr>)
     = None # Some (StoreError ''timeout'') # [] \<and>
   fst (deleteTask ''ghost'' (empty_store\<lparr>script := [None, Some (StoreError ''timeout'')]\<rparr>))
     = Some (StoreError ''timeout'')"
proof -
  let ?e = "StoreError ''timeout''"
  have four: "available 4 empty_store" and two: "available 2 empty_store"
    by (simp_all add: available_def empty_store_def)
  have absent: "hashes empty_store (''task:'' @ ''ghost'') = []" "''ghost'' \<notin> members empty_store"
    by (simp_all add: members_def empty_store_def)
  have refused: "outcome (empty_store\<lparr>script := [Some ?e]\<rparr>) = Some ?e"
    by (simp add: outcome_def)
  have second: "script (empty_store\<lparr>script := [None, Some ?e]\<rparr>) = None # Some ?e # []"
    by simp
  note t1 = delete_in_order_and_idempotent [of empty_store "''ghost''" ?e "[]"]
  note t2 = delete_in_order_and_idempotent [of "empty_store\<lparr>script := [Some ?e]\<rparr>" "''ghost''" ?e "[]"]
  note t3 = delete_in_order_and_idempotent [of "empty_store\<lparr>script := [None, Some ?e]\<rparr>" "''ghost''" ?e "[]"]
  have a: "fst (deleteTask ''ghost'' empty_store) = None"
    "fst (deleteTask ''ghost'' (snd (deleteTask ''ghost'' empty_store))) = None"
    "trace (snd (deleteTask ''ghost'' empty_store)) = [UNLINK ''task:ghost'', ZREM ''tasks'' ''ghost'']"
    using t1 four two absent by (simp_all add: empty_store_def)
  have b: "fst (deleteTask ''ghost'' (empty_store\<lparr>script := [Some ?e]\<rparr>)) = Some ?e"
    using t2 refused by simp
  have c: "fst (deleteTask ''ghost'' (empty_store\<lparr>script := [None, Some ?e]\<rparr>)) = Some ?e"
    using t3 second by simp
  show ?thesis
    using four two absent a b c refused second by simp
qed

section \<open>Listing: order of the index, errors\<close>

text \<open>
  Claim C7. Listing asks for the whole range of the ordered index (\<open>ZRANGE tasks 0 -1\<close>)
  and then resolves each returned id with \<^verbatim>\<open>fetchTask\<close>, in the order of the index: the
  result holds, position by position, what \<^verbatim>\<open>fetchTask\<close> returns for that id. If the
  backend refuses one of these commands, the range or the resolution of any one id, the
  listing returns that error and no list.
\<close>

theorem list_resolves_in_index_order:
  "(available (Suc (length (zsets b ''tasks''))) b \<longrightarrow>
      (\<exists>ts. fst (fetchTasks b) = Inr ts \<and>
            map Inr ts = map (\<lambda>i. fst (fetchTask i b)) (by_score (zsets b ''tasks''))) \<and>
      trace (snd (fetchTasks b)) =
        trace b @ ZRANGE ''tasks'' 0 (- 1) #
          map (\<lambda>i. HGETALL (''task:'' @ i)) (by_score (zsets b ''tasks''))) \<and>
   (script b = replicate k None @ Some err # rest \<and> k \<le> length (zsets b ''tasks'') \<longrightarrow>
      fst (fetchTasks b) = Inl err)"
proof (intro conjI impI)
  assume ok: "available (Suc (length (zsets b ''tasks''))) b"
  then have free: "outcome b = None"
    by (simp add: available_Suc)
  have "map Inr (map (\<lambda>i. resolved (hashes b (''task:'' @ i))) (by_score (zsets b ''tasks'')))
        = map (\<lambda>i. fst (fetchTask i b)) (by_score (zsets b ''tasks''))"
    by (simp add: fetchTask_resolved [OF free])
  then show "\<exists>ts. fst (fetchTasks b) = Inr ts \<and>
            map Inr ts = map (\<lambda>i. fst (fetchTask i b)) (by_score (zsets b ''tasks''))"
    using fetchTasks_available [OF ok] by blast
  show "trace (snd (fetchTasks b)) =
        trace b @ ZRANGE ''tasks'' 0 (- 1) #
          map (\<lambda>i. HGETALL (''task:'' @ i)) (by_score (zsets b ''tasks''))"
    by (rule fetchTasks_trace [OF ok])
next
  assume "script b = replicate k None @ Some err # rest \<and> k \<le> length (zsets b ''tasks'')"
  then show "fst (fetchTasks b) = Inl err"
    using fetchTasks_refused [of b k err rest] by simp
qed

lemma two_tasks_eval:
  "hashes two_tasks =
     (\<lambda>_. [])(''task:a'' := [(''Id'', ''a''), (''Name'', ''Task for Worker1''),
                  (''Description'', ''Description for Worker1''),
                  (''Timestamp'', ''1700000300''),
                  (''TaskerId'', ''tsk-1''), (''WorkerId'', ''worker1'')],
               ''task:b'' := [(''Id'', ''b''), (''Name'', ''Task for Worker3''),
                  (''Description'', ''Description for Worker3''),
                  (''Timestamp'', ''1700000100''),
                  (''TaskerId'', ''tsk-1''), (''WorkerId'', ''worker3'')])"
  "zsets two_tasks = (\<lambda>_. [])(''tasks'' := [(''a'', 1700000300), (''b'', 1700000100)])"
  "script two_tasks = []"
  by (simp_all add: two_tasks_def later_task_def earlier_task_def empty_store_def
      persistTask_def store_defs outcome_def hset_merge_def FormatInt_def digits10.simps
      digit_chars float64_of_int64_def)

lemma by_score_two_tasks: "by_score (zsets two_tasks ''tasks'') = [''b'', ''a'']"
  by (simp add: two_tasks_eval by_score_def)

lemma parse_examples:
  "ParseInt ''1700000300'' = (1700000300, None)"
  "ParseInt ''1700000100'' = (1700000100, None)"
  by (simp_all add: ParseInt_def ParseUint_def maxUint64_def)

lemma fetchTasks_two_tasks:
  "fst (fetchTasks two_tasks) = Inr [Some earlier_task, Some later_task]"
proof -
  have ok: "available (Suc (length (zsets two_tasks ''tasks''))) two_tasks"
    by (simp add: available_def two_tasks_eval)
  show ?thesis
    unfolding fetchTasks_available [OF ok] by_score_two_tasks
    by (simp add: two_tasks_eval resolved_def map_index_def parse_examples
        later_task_def earlier_task_def)
qed

lemma dangling_eval:
  "hashes dangling =
     (\<lambda>_. [])(''task:b'' := [(''Id'', ''b''), (''Name'', ''Task for Worker3''),
                  (''Description'', ''Description for Worker3''),
                  (''Timestamp'', ''1700000100''),
                  (''TaskerId'', ''tsk-1''), (''WorkerId'', ''worker3'')],
               ''task:a'' := [])"
  "zsets dangling ''tasks'' = [(''a'', 1700000300), (''b'', 1700000100)]"
  "script dangling = []"
  by (simp_all add: dangling_def deleteTask_def store_defs outcome_def two_tasks_eval)

theorem list_resolves_in_index_order_witness:
  "available (Suc (length (zsets two_tasks ''tasks''))) two_tasks \<and>
   (\<exists>ts. fst (fetchTasks two_tasks) = Inr ts \<and>
         map Inr ts = map (\<lambda>i. fst (fetchTask i two_tasks)) [''b'', ''a'']) \<and>
   script (two_tasks\<lparr>script := [None, None, Some (StoreError ''timeout'')]\<rparr>) =
     replicate 2 None @ Some (StoreError ''timeout'') # [] \<and>
   2 \<le> length (zsets (two_tasks\<lparr>script := [None, None, Some (StoreError ''timeout'')]\<rparr>)
                ''tasks'') \<and>
   fst (fetchTasks (two_tasks\<lparr>script := [None, None, Some (StoreError ''timeout'')]\<rparr>)) =
     Inl (StoreError ''timeout'')"
proof -
  let ?e = "StoreError ''timeout''"
  let ?down = "two_tasks\<lparr>script := [None, None, Some ?e]\<rparr>"
  have ok: "available (Suc (length (zsets two_tasks ''tasks''))) two_tasks"
    by (simp add: available_def two_tasks_eval)
  have s: "script ?down = replicate 2 None @ Some ?e # []"
    by (simp add: numeral_2_eq_2)
  have k: "2 \<le> length (zsets ?down ''tasks'')"
    by (simp add: two_tasks_eval)
  have listed: "\<exists>ts. fst (fetchTasks two_tasks) = Inr ts \<and>
         map Inr ts = map (\<lambda>i. fst (fetchTask i two_tasks)) [''b'', ''a'']"
    using list_resolves_in_index_order [of two_tasks] ok by (simp add: by_score_two_tasks)
  have failed: "fst (fetchTasks ?down) = Inl ?e"
    using list_resolves_in_index_order [of ?down 2 ?e "[]"] s k by blast
  show ?thesis
    using ok listed s k failed by blast
qed

section \<open>Listing with a dangling index entry\<close>

text \<open>
  Claim C8. When the ordered index holds an id whose field map is empty, listing does not
  fail on it: it returns a list with one entry for every member of the index, and the
  entry at each position of that id is \<^verbatim>\<open>nil\<close>. The backend carries out the commands
  of the listing.
\<close>

theorem list_keeps_dangling_entry:
  assumes "available (Suc (length (zsets b ''tasks''))) b"
    and "id' \<in> members b"
    and "hashes b (''task:'' @ id') = []"
  shows "\<exists>ts. fst (fetchTasks b) = Inr ts \<and>
              length ts = length (by_score (zsets b ''tasks'')) \<and>
              (\<forall>n < length ts. by_score (zsets b ''tasks'') ! n = id' \<longrightarrow> ts ! n = None) \<and>
              (\<exists>n < length ts. by_score (zsets b ''tasks'') ! n = id')"
proof -
  let ?ids = "by_score (zsets b ''tasks'')"
  let ?ts = "map (\<lambda>i. resolved (hashes b (''task:'' @ i))) ?ids"
  have listed: "fst (fetchTasks b) = Inr ?ts"
    by (rule fetchTasks_available [OF assms(1)])
  have nil: "\<forall>n < length ?ts. ?ids ! n = id' \<longrightarrow> ?ts ! n = None"
    using assms(3) by (simp add: resolved_def)
  have "id' \<in> set ?ids"
    using assms(2) by (simp add: members_def)
  then obtain n where "n < length ?ids" "?ids ! n = id'"
    unfolding in_set_conv_nth by blast
  then have "\<exists>n < length ?ts. ?ids ! n = id'"
    by auto
  then show ?thesis
    using listed nil by (intro exI [of _ ?ts]) simp
qed

theorem list_keeps_dangling_entry_witness:
  "available (Suc (length (zsets dangling ''tasks''))) dangling \<and>
   ''a'' \<in> members dangling \<and> hashes dangling (''task:'' @ ''a'') = [] \<and>
   fst (fetchTasks dangling) = Inr [Some earlier_task, None]"
proof -
  have ok: "available (Suc (length (zsets dangling ''tasks''))) dangling"
    by (simp add: available_def dangling_eval)
  have m: "''a'' \<in> members dangling"
    by (simp add: members_def dangling_eval)
  have h: "hashes dangling (''task:'' @ ''a'') = []"
    by (simp add: dangling_eval)
  have order: "by_score (zsets dangling ''tasks'') = [''b'', ''a'']"
    by (simp add: dangling_eval by_score_def)
  obtain ts where ts: "fst (fetchTasks dangling) = Inr ts" "length ts = 2"
      "\<forall>n < length ts. [''b'', ''a''] ! n = ''a'' \<longrightarrow> ts ! n = None"
    using list_keeps_dangling_entry [OF ok m h] by (auto simp add: order)
  have "fst (fetchTasks dangling) = Inr [Some earlier_task, None]"
    unfolding fetchTasks_available [OF ok] order
    by (simp add: dangling_eval resolved_def map_index_def parse_examples earlier_task_def)
  then show ?thesis
    using ok m h ts by simp
qed

section \<open>What a fetch depends on\<close>

text \<open>
  Claim C10. The result of \<^verbatim>\<open>fetchTask\<close> for an id depends only on the field map stored
  under \<^verbatim>\<open>task:<id>\<close> (and on whether the backend answers): two states that agree on
  that field map give the same result, however they differ in other field maps and in the
  ordered index. The id of the returned task is the stored field \<^verbatim>\<open>Id\<close>, not the id
  that was asked for.
\<close>

theorem fetch_depends_on_field_map_only:
  "(hashes b1 (''task:'' @ id') = hashes b2 (''task:'' @ id') \<and> outcome b1 = outcome b2 \<longrightarrow>
      fst (fetchTask id' b1) = fst (fetchTask id' b2)) \<and>
   (fst (fetchTask id' b) = Inr (Some task) \<longrightarrow>
      Id' task = map_index (hashes b (''task:'' @ id')) ''Id'')"
  by (auto simp add: fetchTask_result Let_def split: option.splits if_splits)

theorem fetch_depends_on_field_map_only_witness:
  "hashes two_tasks (''task:'' @ ''b'') = hashes dangling (''task:'' @ ''b'') \<and>
   outcome two_tasks = outcome dangling \<and>
   hashes two_tasks \<noteq> hashes dangling \<and>
   fst (fetchTask ''b'' two_tasks) = fst (fetchTask ''b'' dangling) \<and>
   fst (fetchTask ''x'' (snd (HSet ''task:x'' [(''Id'', ''y'')] empty_store))) =
     Inr (Some \<lparr>Id' = ''y'', Name = [], Description = [], Timestamp = 0,
                TaskerId = [], WorkerId = []\<rparr>)"
proof -
  let ?odd = "snd (HSet ''task:x'' [(''Id'', ''y'')] empty_store)"
  let ?task = "\<lparr>Id' = ''y'', Name = [], Description = [], Timestamp = 0,
                 TaskerId = [], WorkerId = []\<rparr>"
  have same: "hashes two_tasks (''task:'' @ ''b'') = hashes dangling (''task:'' @ ''b'')"
    by (simp add: two_tasks_eval dangling_eval)
  have answers: "outcome two_tasks = outcome dangling"
    by (simp add: outcome_def two_tasks_eval dangling_eval)
  have "hashes two_tasks ''task:a'' \<noteq> hashes dangling ''task:a''"
    by (simp add: two_tasks_eval dangling_eval)
  then have differ: "hashes two_tasks \<noteq> hashes dangling"
    by metis
  have equal: "fst (fetchTask ''b'' two_tasks) = fst (fetchTask ''b'' dangling)"
    using fetch_depends_on_field_map_only [of two_tasks "''b''" dangling] same answers
    by blast
  have odd: "fst (fetchTask ''x'' ?odd) = Inr (Some ?task)"
    by (simp add: fetchTask_result store_defs outcome_def empty_store_def hset_merge_def
        map_index_def ParseInt_def)
  have "Id' ?task = map_index (hashes ?odd (''task:'' @ ''x'')) ''Id''"
    using fetch_depends_on_field_map_only [of _ "''x''" _ ?odd ?task] odd by blast
  then show ?thesis
    using same answers differ equal odd by simp
qed

section \<open>Index and field maps\<close>









lemma reachable_persistTask:
  assumes "reachable P b" and "P task" and "available 2 b"
  shows "reachable P (snd (persistTask task b))"
proof -
  have "persistTask task b = (None, snd (persistTask task b))"
    using persistTask_available(1) [OF assms(3), of task] by (simp add: prod_eq_iff)
  then show ?thesis
    using assms(1,2) by (rule reachable.create [rotated 2])
qed

lemma reachable_two_tasks: "reachable (\<lambda>_. True) two_tasks"
proof -
  have r0: "reachable (\<lambda>_. True) empty_store"
    by (rule reachable.start) (simp_all add: empty_store_def)
  have a0: "available 2 empty_store"
    by (simp add: available_def empty_store_def)
  have r1: "reachable (\<lambda>_. True) (snd (persistTask later_task empty_store))"
    using reachable_persistTask [OF r0 _ a0] by simp
  have "script (snd (persistTask later_task empty_store)) = []"
    by (simp add: persistTask_script empty_store_def)
  then have a1: "available 2 (snd (persistTask later_task empty_store))"
    by (simp add: available_def)
  show ?thesis
    unfolding two_tasks_def using reachable_persistTask [OF r1 _ a1] by simp
qed



section \<open>Fetching one task\<close>

lemma ParseInt_syntax: "snd (ParseInt s) = Some ErrSyntax \<Longrightarrow> fst (ParseInt s) = 0"
  by (auto simp add: ParseInt_def Let_def split: if_splits prod.splits)

lemma ParseInt_range:
  "snd (ParseInt s) = Some ErrRange \<Longrightarrow>
   fst (ParseInt s) = 9223372036854775807 \<or> fst (ParseInt s) = - 9223372036854775808"
  by (auto simp add: ParseInt_def Let_def split: if_splits prod.splits)

lemma persistTask_other_key:
  "Id' task \<noteq> id' \<Longrightarrow>
   hashes (snd (persistTask task b)) (''task:'' @ id') = hashes b (''task:'' @ id')"
  by (auto simp add: persistTask_def store_defs split: option.splits)

lemma parse_failures:
  "ParseInt ''soon'' = (0, Some ErrSyntax)"
  "ParseInt ''9223372036854775808'' = (9223372036854775807, Some ErrRange)"
  "ParseInt ''-9223372036854775809'' = (- 9223372036854775808, Some ErrRange)"
  by (simp_all add: ParseInt_def ParseUint_def maxUint64_def)

lemma overflowing_eval:
  "hashes overflowing =
     (\<lambda>_. [])(''task:x'' := [(''Id'', ''x''), (''Timestamp'', ''9223372036854775808'')])"
  "outcome overflowing = None"
  by (simp_all add: overflowing_def store_defs outcome_def empty_store_def hset_merge_def)

text \<open>
  The claim as stated fails: the \<^verbatim>\<open>Timestamp\<close> field of \<open>overflowing\<close> cannot be parsed
  (\<^verbatim>\<open>strconv.ParseInt\<close> returns a range error), and the fetched task has the timestamp
  \<open>2 ^ 63 - 1\<close>, not zero.
\<close>

theorem unparsable_timestamp_not_zero:
  "snd (ParseInt (map_index (hashes overflowing ''task:x'') ''Timestamp'')) = Some ErrRange \<and>
   fst (fetchTask ''x'' overflowing) =
     Inr (Some \<lparr>Id' = ''x'', Name = [], Description = [],
                Timestamp = 9223372036854775807, TaskerId = [], WorkerId = []\<rparr>) \<and>
   (9223372036854775807 :: 64 word) \<noteq> 0"
  by (simp add: fetchTask_result overflowing_eval map_index_def parse_failures)

section \<open>The order of a listing\<close>

lemma float64_of_int64_exact:
  assumes "\<bar>sint w\<bar> \<le> 2 ^ 53"
  shows "float64_of_int64 w = sint w"
proof -
  have "nat \<bar>sint w\<bar> \<le> 2 ^ 53"
    using assms by (simp add: nat_le_iff)
  then show ?thesis
    by (simp add: float64_of_int64_def Let_def)
qed

lemma entry_of_update:
  assumes "distinct (map fst al)" and "(m, sc) \<in> set (AList.update k v al)"
  shows "(m = k \<and> sc = v) \<or> (m \<noteq> k \<and> (m, sc) \<in> set al)"
proof -
  have d: "distinct (map fst (AList.update k v al))"
    using assms(1) by (rule distinct_update)
  have "map_of (AList.update k v al) m = Some sc"
    using d assms(2) by simp
  then have "((map_of al)(k \<mapsto> v)) m = Some sc"
    by (simp add: update_conv')
  then show ?thesis
    by (auto split: if_splits dest: map_of_SomeD)
qed

lemma entry_of_delete:
  "(m, sc) \<in> set (AList.delete k al) \<Longrightarrow> m \<noteq> k \<and> (m, sc) \<in> set al"
  by (induction al) (auto split: if_splits)

lemma index_agrees_persistTask:
  assumes agrees: "index_agrees b" and dist: "distinct (map fst (zsets b ''tasks''))"
    and exact: "exact_timestamp task" and ran: "persistTask task b = (None, b')"
  shows "index_agrees b'"
proof -
  note data = persistTask_data [OF ran]
  have score: "float64_of_int64 (Timestamp task) = sint (Timestamp task)"
    using exact by (simp add: exact_timestamp_def float64_of_int64_exact)
  show ?thesis
    unfolding index_agrees_def
  proof (intro ballI, clarify)
    fix m sc
    assume "(m, sc) \<in> set (zsets b' ''tasks'')"
    then have "(m, sc) \<in> set (AList.update (Id' task) (sint (Timestamp task)) (zsets b ''tasks''))"
      using data score by simp
    then consider "m = Id' task" "sc = sint (Timestamp task)"
      | "m \<noteq> Id' task" "(m, sc) \<in> set (zsets b ''tasks'')"
      using entry_of_update [OF dist] by blast
    then show "\<exists>t. resolved (hashes b' (''task:'' @ m)) = Some t \<and> sint (Timestamp t) = sc"
    proof cases
      case 1
      then have "resolved (hashes b' (''task:'' @ m)) = Some task"
        using data resolved_persisted [of "hashes b (''task:'' @ Id' task)" task] by simp
      then show ?thesis using 1 by simp
    next
      case 2
      then have "hashes b' (''task:'' @ m) = hashes b (''task:'' @ m)"
        using data by simp
      then show ?thesis
        using 2 agrees by (auto simp add: index_agrees_def)
    qed
  qed
qed

lemma index_agrees_deleteTask:
  assumes agrees: "index_agrees b" and ran: "deleteTask id' b = (None, b')"
  shows "index_agrees b'"
proof -
  note data = deleteTask_data [OF ran]
  show ?thesis
    unfolding index_agrees_def
  proof (intro ballI, clarify)
    fix m sc
    assume "(m, sc) \<in> set (zsets b' ''tasks'')"
    then have "(m, sc) \<in> set (AList.delete id' (zsets b ''tasks''))"
      using data by simp
    then have other: "m \<noteq> id'" "(m, sc) \<in> set (zsets b ''tasks'')"
      using entry_of_delete by fast+
    then have "hashes b' (''task:'' @ m) = hashes b (''task:'' @ m)"
      using data by simp
    then show "\<exists>t. resolved (hashes b' (''task:'' @ m)) = Some t \<and> sint (Timestamp t) = sc"
      using other agrees by (auto simp add: index_agrees_def)
  qed
qed

lemma index_agrees_data:
  "hashes b' = hashes b \<Longrightarrow> zsets b' = zsets b \<Longrightarrow> index_agrees b' = index_agrees b"
  by (simp add: index_agrees_def)

lemma reachable_index_agrees:
  "reachable exact_timestamp b \<Longrightarrow>
   distinct (map fst (zsets b ''tasks'')) \<and> index_agrees b"
proof (induction rule: reachable.induct)
  case (start b)
  then show ?case by (simp add: index_agrees_def)
next
  case (create b task b')
  have "distinct (map fst (zsets b' ''tasks''))"
    using create.IH persistTask_data [OF create.hyps(3)] by (simp add: distinct_update)
  then show ?case
    using create index_agrees_persistTask [of b task b'] by simp
next
  case (delete b id' b')
  have "distinct (map fst (zsets b' ''tasks''))"
    using delete.IH deleteTask_data [OF delete.hyps(2)] by (simp add: distinct_delete)
  then show ?case
    using delete index_agrees_deleteTask [of b id' b'] by simp
next
  case (fetch b id' r b')
  then show ?case
    using fetchTask_data [of id' b] index_agrees_data [of b' b] by simp
next
  case (list b rs b')
  then show ?case
    using fetchTasks_data [of b] index_agrees_data [of b' b] by simp
qed

lemma sorted_scores:
  "sorted (map snd (sort_key (\<lambda>(member, score). (score, member)) (z :: zset)))"
proof -
  let ?g = "\<lambda>(member :: string, score :: int). (score, member)"
  have "sorted (map ?g (sort_key ?g z))"
    by (rule sorted_sort_key)
  then have "sorted_wrt (\<lambda>x y. ?g x \<le> ?g y) (sort_key ?g z)"
    by (simp add: sorted_map)
  then have "sorted_wrt (\<lambda>x y. snd x \<le> snd y) (sort_key ?g z)"
    by (rule sorted_wrt_mono_rel [rotated]) (auto simp add: less_eq_prod_def)
  then show ?thesis
    by (simp add: sorted_map)
qed

lemma listing_of_agreeing_index:
  assumes "\<forall>(m, sc) \<in> set xs.
             \<exists>t. resolved (h (''task:'' @ m)) = Some t \<and> sint (Timestamp t) = sc"
  shows "\<exists>ts. map (\<lambda>i. resolved (h (''task:'' @ i))) (map fst xs) = map Some ts \<and>
              map (\<lambda>t. sint (Timestamp t)) ts = map snd xs"
  using assms
proof (induction xs)
  case Nil
  show ?case by simp
next
  case (Cons x xs)
  obtain m sc where x: "x = (m, sc)" by (cases x)
  obtain t where t: "resolved (h (''task:'' @ m)) = Some t" "sint (Timestamp t) = sc"
    using Cons.prems x by auto
  obtain ts where ts: "map (\<lambda>i. resolved (h (''task:'' @ i))) (map fst xs) = map Some ts"
      "map (\<lambda>t. sint (Timestamp t)) ts = map snd xs"
    using Cons.IH Cons.prems by auto
  show ?case
    using x t ts by (intro exI [of _ "t # ts"]) simp
qed

lemma fetchTasks_sorted:
  assumes "index_agrees b" and "available (Suc (length (zsets b ''tasks''))) b"
  shows "\<exists>ts. fst (fetchTasks b) = Inr (map Some ts) \<and>
              sorted (map (\<lambda>t. sint (Timestamp t)) ts)"
proof -
  let ?srt = "sort_key (\<lambda>(member, score). (score, member)) (zsets b ''tasks'')"
  have "\<forall>(m, sc) \<in> set ?srt.
          \<exists>t. resolved (hashes b (''task:'' @ m)) = Some t \<and> sint (Timestamp t) = sc"
    using assms(1) by (simp add: index_agrees_def)
  then obtain ts where ts:
      "map (\<lambda>i. resolved (hashes b (''task:'' @ i))) (map fst ?srt) = map Some ts"
      "map (\<lambda>t. sint (Timestamp t)) ts = map snd ?srt"
    using listing_of_agreeing_index [of ?srt "hashes b"] by blast
  have "fst (fetchTasks b) = Inr (map Some ts)"
    using fetchTasks_available [OF assms(2)] ts(1) by (simp add: by_score_def)
  moreover have "sorted (map (\<lambda>t. sint (Timestamp t)) ts)"
    using ts(2) sorted_scores [of "zsets b ''tasks''"] by simp
  ultimately show ?thesis by blast
qed

lemma reachable_two_tasks_exact: "reachable exact_timestamp two_tasks"
proof -
  have r0: "reachable exact_timestamp empty_store"
    by (rule reachable.start) (simp_all add: empty_store_def)
  have a0: "available 2 empty_store"
    by (simp add: available_def empty_store_def)
  have e: "exact_timestamp later_task" "exact_timestamp earlier_task"
    by (simp_all add: exact_timestamp_def later_task_def earlier_task_def)
  have r1: "reachable exact_timestamp (snd (persistTask later_task empty_store))"
    using reachable_persistTask [OF r0 e(1) a0] .
  have "script (snd (persistTask later_task empty_store)) = []"
    by (simp add: persistTask_script empty_store_def)
  then have a1: "available 2 (snd (persistTask later_task empty_store))"
    by (simp add: available_def)
  show ?thesis
    unfolding two_tasks_def using reachable_persistTask [OF r1 e(2) a1] .
qed

text \<open>
  Claim C6, as amended. In every state of the store in which each member of the ordered
  index has a field map whose timestamp is the member's score, listing returns, when the
  backend answers, one task for every member, sorted ascending by timestamp. Every state
  reached from the empty store by completed creates and deletes of tasks whose timestamps
  are at most \<open>2 ^ 53\<close> in magnitude is such a state, in whatever order the creates were
  issued.
\<close>

theorem list_sorted_by_timestamp:
  "(index_agrees b \<and> available (Suc (length (zsets b ''tasks''))) b \<longrightarrow>
      (\<exists>ts. fst (fetchTasks b) = Inr (map Some ts) \<and>
            length ts = length (zsets b ''tasks'') \<and>
            sorted (map (\<lambda>t. sint (Timestamp t)) ts))) \<and>
   (reachable exact_timestamp b \<longrightarrow> index_agrees b)"
proof (intro conjI impI)
  assume a: "index_agrees b \<and> available (Suc (length (zsets b ''tasks''))) b"
  then obtain ts where ts: "fst (fetchTasks b) = Inr (map Some ts)"
      "sorted (map (\<lambda>t. sint (Timestamp t)) ts)"
    using fetchTasks_sorted [of b] by blast
  have "map (\<lambda>i. resolved (hashes b (''task:'' @ i))) (by_score (zsets b ''tasks'')) =
        map Some ts"
    using ts(1) fetchTasks_available [of b] a by simp
  then have "length (by_score (zsets b ''tasks'')) = length ts"
    by (rule map_eq_imp_length_eq)
  then have "length ts = length (zsets b ''tasks'')"
    by simp
  then show "\<exists>ts. fst (fetchTasks b) = Inr (map Some ts) \<and>
            length ts = length (zsets b ''tasks'') \<and>
            sorted (map (\<lambda>t. sint (Timestamp t)) ts)"
    using ts by auto
next
  assume "reachable exact_timestamp b"
  then show "index_agrees b"
    using reachable_index_agrees by blast
qed

theorem list_sorted_by_timestamp_witness:
  "reachable exact_timestamp two_tasks \<and> index_agrees two_tasks \<and>
   available (Suc (length (zsets two_tasks ''tasks''))) two_tasks \<and>
   (\<exists>ts. fst (fetchTasks two_tasks) = Inr (map Some ts) \<and>
         length ts = length (zsets two_tasks ''tasks'') \<and>
         sorted (map (\<lambda>t. sint (Timestamp t)) ts)) \<and>
   fst (fetchTasks two_tasks) = Inr [Some earlier_task, Some later_task] \<and>
   sint (Timestamp earlier_task) < sint (Timestamp later_task)"
proof -
  have agrees: "index_agrees two_tasks"
    using list_sorted_by_timestamp [of two_tasks] reachable_two_tasks_exact by blast
  have ok: "available (Suc (length (zsets two_tasks ''tasks''))) two_tasks"
    by (simp add: available_def two_tasks_eval)
  have listed: "\<exists>ts. fst (fetchTasks two_tasks) = Inr (map Some ts) \<and>
         length ts = length (zsets two_tasks ''tasks'') \<and>
         sorted (map (\<lambda>t. sint (Timestamp t)) ts)"
    using list_sorted_by_timestamp [of two_tasks] agrees ok by blast
  have order: "sint (Timestamp earlier_task) < sint (Timestamp later_task)"
    by (simp add: earlier_task_def later_task_def)
  show ?thesis
    using reachable_two_tasks_exact agrees ok listed fetchTasks_two_tasks order by blast
qed

lemma rounded_scores:
  "float64_of_int64 9007199254740993 = 9007199254740992"
  "float64_of_int64 9007199254740992 = 9007199254740992"
  by (simp_all add: float64_of_int64_def bit_len.simps Let_def)

lemma rounded_pair_eval:
  "hashes rounded_pair ''task:a'' =
     hset_merge []
       [(''Id'', Id' odd_task), (''Name'', Name odd_task),
        (''Description'', Description odd_task),
        (''Timestamp'', FormatInt (Timestamp odd_task)),
        (''TaskerId'', TaskerId odd_task), (''WorkerId'', WorkerId odd_task)]"
  "hashes rounded_pair ''task:b'' =
     hset_merge []
       [(''Id'', Id' even_task), (''Name'', Name even_task),
        (''Description'', Description even_task),
        (''Timestamp'', FormatInt (Timestamp even_task)),
        (''TaskerId'', TaskerId even_task), (''WorkerId'', WorkerId even_task)]"
  "zsets rounded_pair ''tasks'' = [(''a'', 9007199254740992), (''b'', 9007199254740992)]"
  "script rounded_pair = []"
  by (simp_all add: rounded_pair_def persistTask_def store_defs outcome_def empty_store_def
      odd_task_def even_task_def rounded_scores)

text \<open>
  The claim as stated fails, also for a store that only ever saw two completed creates:
  the timestamps \<open>2 ^ 53 + 1\<close> and \<open>2 ^ 53\<close> get the same score, the index orders the two
  members by their bytes, and the listing has the greater timestamp first.
\<close>

theorem list_not_sorted_by_timestamp:
  "fst (fetchTasks rounded_pair) = Inr [Some odd_task, Some even_task] \<and>
   sint (Timestamp even_task) < sint (Timestamp odd_task)"
proof -
  have ok: "available (Suc (length (zsets rounded_pair ''tasks''))) rounded_pair"
    by (simp add: available_def rounded_pair_eval)
  have order: "by_score (zsets rounded_pair ''tasks'') = [''a'', ''b'']"
    by (simp add: rounded_pair_eval by_score_def)
  have "fst (fetchTasks rounded_pair) = Inr [Some odd_task, Some even_task]"
    unfolding fetchTasks_available [OF ok] order
    by (simp add: rounded_pair_eval resolved_persisted)
  moreover have "sint (Timestamp even_task) < sint (Timestamp odd_task)"
    by (simp add: odd_task_def even_task_def)
  ultimately show ?thesis by simp
qed

section \<open>The persisted layout\<close>

lemma map_of_hset_merge_six:
  "map_of (hset_merge old [(f1, v1), (f2, v2), (f3, v3), (f4, v4), (f5, v5), (f6, v6)]) =
     (map_of old)(f1 \<mapsto> v1, f2 \<mapsto> v2, f3 \<mapsto> v3, f4 \<mapsto> v4, f5 \<mapsto> v5, f6 \<mapsto> v6)"
  by (simp add: hset_merge_six update_conv')

lemma fields_hset_merge_six:
  "fst ` set (hset_merge old [(f1, v1), (f2, v2), (f3, v3), (f4, v4), (f5, v5), (f6, v6)]) =
     {f1, f2, f3, f4, f5, f6} \<union> fst ` set old"
  by (auto simp add: hset_merge_six dom_update)

lemma map_index_persisted_Id:
  "map_index (hset_merge old
      [(''Id'', i), (''Name'', n), (''Description'', d), (''Timestamp'', t),
       (''TaskerId'', tk), (''WorkerId'', w)]) ''Id'' = i"
  by (simp add: map_index_def map_of_hset_merge_six)

lemma fields_after_merge:
  "fst ` set old \<subseteq> {f1, f2, f3, f4, f5, f6} \<Longrightarrow>
   fst ` set (hset_merge old [(f1, v1), (f2, v2), (f3, v3), (f4, v4), (f5, v5), (f6, v6)]) =
     {f1, f2, f3, f4, f5, f6}"
  unfolding fields_hset_merge_six by (rule Un_absorb2)

lemma layout_iff:
  "layout b \<longleftrightarrow>
     (\<forall>k. hashes b k \<noteq> [] \<longrightarrow>
          k = ''task:'' @ map_index (hashes b k) ''Id'' \<and>
          fst ` set (hashes b k) =
            {''Id'', ''Name'', ''Description'', ''Timestamp'', ''TaskerId'', ''WorkerId''}) \<and>
     (\<forall>n. zsets b n \<noteq> [] \<longrightarrow> n = ''tasks'')"
  unfolding layout_def ..

lemma layout_persistTask:
  assumes "layout b" and ran: "persistTask task b = (None, b')"
  shows "layout b'"
proof -
  define N where
    "N = {''Id'', ''Name'', ''Description'', ''Timestamp'', ''TaskerId'', ''WorkerId''}"
  define key where "key = ''task:'' @ Id' task"
  define six where
    "six = [(''Id'', Id' task), (''Name'', Name task), (''Description'', Description task),
            (''Timestamp'', FormatInt (Timestamp task)),
            (''TaskerId'', TaskerId task), (''WorkerId'', WorkerId task)]"
  have inv: "\<And>k. hashes b k \<noteq> [] \<Longrightarrow>
               k = ''task:'' @ map_index (hashes b k) ''Id'' \<and> fst ` set (hashes b k) = N"
    and only: "\<And>n. zsets b n \<noteq> [] \<Longrightarrow> n = ''tasks''"
    using assms(1) unfolding layout_iff N_def [symmetric] by blast+
  have h: "hashes b' = (hashes b)(key := hset_merge (hashes b key) six)"
    and z: "zsets b' = (zsets b)(''tasks'' :=
              AList.update (Id' task) (float64_of_int64 (Timestamp task)) (zsets b ''tasks''))"
    using persistTask_data [OF ran] unfolding key_def six_def by blast+
  have old: "fst ` set (hashes b key) \<subseteq> N"
  proof (cases "hashes b key = []")
    case True
    then show ?thesis by simp
  next
    case False
    then show ?thesis using inv [of key] by simp
  qed
  have new: "fst ` set (hset_merge (hashes b key) six) = N"
    using old unfolding six_def N_def by (rule fields_after_merge)
  have id: "map_index (hset_merge (hashes b key) six) ''Id'' = Id' task"
    unfolding six_def by (rule map_index_persisted_Id)
  have hk: "\<And>k. hashes b' k \<noteq> [] \<Longrightarrow>
              k = ''task:'' @ map_index (hashes b' k) ''Id'' \<and> fst ` set (hashes b' k) = N"
  proof -
    fix k assume k: "hashes b' k \<noteq> []"
    show "k = ''task:'' @ map_index (hashes b' k) ''Id'' \<and> fst ` set (hashes b' k) = N"
    proof (cases "k = key")
      case True
      then have "hashes b' k = hset_merge (hashes b key) six"
        unfolding h by simp
      then show ?thesis
        using new id True unfolding key_def by simp
    next
      case False
      then have "hashes b' k = hashes b k"
        unfolding h by simp
      then show ?thesis
        using inv [of k] k by simp
    qed
  qed
  have zn: "\<And>n. zsets b' n \<noteq> [] \<Longrightarrow> n = ''tasks''"
  proof -
    fix n assume n: "zsets b' n \<noteq> []"
    show "n = ''tasks''"
    proof (rule ccontr)
      assume other: "n \<noteq> ''tasks''"
      then have "zsets b' n = zsets b n"
        unfolding z by simp
      then show False
        using only [of n] n other by simp
    qed
  qed
  show ?thesis
    unfolding layout_iff N_def [symmetric] using hk zn by blast
qed

lemma layout_deleteTask:
  assumes "layout b" and ran: "deleteTask id' b = (None, b')"
  shows "layout b'"
proof -
  define N where
    "N = {''Id'', ''Name'', ''Description'', ''Timestamp'', ''TaskerId'', ''WorkerId''}"
  define key where "key = ''task:'' @ id'"
  have inv: "\<And>k. hashes b k \<noteq> [] \<Longrightarrow>
               k = ''task:'' @ map_index (hashes b k) ''Id'' \<and> fst ` set (hashes b k) = N"
    and only: "\<And>n. zsets b n \<noteq> [] \<Longrightarrow> n = ''tasks''"
    using assms(1) unfolding layout_iff N_def [symmetric] by blast+
  have h: "hashes b' = (hashes b)(key := [])"
    and z: "zsets b' = (zsets b)(key := [],
              ''tasks'' := AList.delete id' (zsets b ''tasks''))"
    using deleteTask_data [OF ran] unfolding key_def by blast+
  have hk: "\<And>k. hashes b' k \<noteq> [] \<Longrightarrow>
              k = ''task:'' @ map_index (hashes b' k) ''Id'' \<and> fst ` set (hashes b' k) = N"
  proof -
    fix k assume k: "hashes b' k \<noteq> []"
    then have "k \<noteq> key" unfolding h by auto
    then have "hashes b' k = hashes b k" unfolding h by simp
    then show "k = ''task:'' @ map_index (hashes b' k) ''Id'' \<and> fst ` set (hashes b' k) = N"
      using inv [of k] k by simp
  qed
  have zn: "\<And>n. zsets b' n \<noteq> [] \<Longrightarrow> n = ''tasks''"
  proof -
    fix n assume n: "zsets b' n \<noteq> []"
    show "n = ''tasks''"
    proof (rule ccontr)
      assume other: "n \<noteq> ''tasks''"
      then have "zsets b' n = [] \<or> zsets b' n = zsets b n"
        unfolding z by simp
      then show False
        using only [of n] n other by auto
    qed
  qed
  show ?thesis
    unfolding layout_iff N_def [symmetric] using hk zn by blast
qed

lemma layout_data:
  "hashes b' = hashes b \<Longrightarrow> zsets b' = zsets b \<Longrightarrow> layout b' = layout b"
  unfolding layout_iff by simp

lemma reachable_layout: "reachable P b \<Longrightarrow> layout b"
proof (induction rule: reachable.induct)
  case (start b)
  then show ?case unfolding layout_iff by simp
next
  case (create b task b')
  then show ?case by (simp add: layout_persistTask)
next
  case (delete b id' b')
  then show ?case by (simp add: layout_deleteTask)
next
  case (fetch b id' r b')
  then show ?case
    using fetchTask_data [of id' b] layout_data [of b' b] by simp
next
  case (list b rs b')
  then show ?case
    using fetchTasks_data [of b] layout_data [of b' b] by simp
qed

lemma persistTask_ran:
  "available 2 b \<Longrightarrow> persistTask task b = (None, snd (persistTask task b))"
  using persistTask_available(1) [of b task] by (simp add: prod_eq_iff)

lemma format_example: "FormatInt 1700000300 = ''1700000300''"
  by (simp add: FormatInt_def digits10.simps digit_chars)

section \<open>Create: order of the two writes, errors, and the reply\<close>

lemma persistTask_second_trace:
  "script b = None # Some err # rest \<Longrightarrow>
   trace (snd (persistTask task b)) =
     trace b @
     [HSET (''task:'' @ Id' task)
        [(''Id'', Id' task), (''Name'', Name task),
         (''Description'', Description task),
         (''Timestamp'', FormatInt (Timestamp task)),
         (''TaskerId'', TaskerId task), (''WorkerId'', WorkerId task)],
      ZADD ''tasks'' (float64_of_int64 (Timestamp task)) (Id' task)]"
  by (simp add: persistTask_def store_defs outcome_def)

lemma POST_task_state:
  "snd (POST_task bound None uuid now b) =
     snd (persistTask (bound\<lparr>Id' := uuid, Timestamp := now\<rparr>) b)"
  by (cases "persistTask (bound\<lparr>Id' := uuid, Timestamp := now\<rparr>) b")
     (simp add: POST_task_def Let_def split: option.splits)

lemma POST_task_reply:
  "fst (POST_task bound None uuid now b) =
     (case fst (persistTask (bound\<lparr>Id' := uuid, Timestamp := now\<rparr>) b) of
        Some err \<Rightarrow>
          \<lparr>status = 500, reply_task = bound\<lparr>Id' := uuid, Timestamp := now\<rparr>,
           created = False, message = Error err\<rparr>
      | None \<Rightarrow>
          \<lparr>status = 201, reply_task = bound\<lparr>Id' := uuid, Timestamp := now\<rparr>,
           created = True, message = ''Task Created Successfully''\<rparr>)"
  by (cases "persistTask (bound\<lparr>Id' := uuid, Timestamp := now\<rparr>) b")
     (simp add: POST_task_def Let_def split: option.splits)

lemma createTask_state:
  "snd (createTask uuid now taskerId workerId name description b) =
     snd (persistTask \<lparr>Id' = uuid, Name = name, Description = description,
                       Timestamp = now, TaskerId = taskerId, WorkerId = workerId\<rparr> b)"
  by (cases "persistTask \<lparr>Id' = uuid, Name = name, Description = description,
                       Timestamp = now, TaskerId = taskerId, WorkerId = workerId\<rparr> b")
     (simp add: createTask_def Let_def split: option.splits)

lemma createTask_line:
  "fst (createTask uuid now taskerId workerId name description b) =
     (case fst (persistTask \<lparr>Id' = uuid, Name = name, Description = description,
                       Timestamp = now, TaskerId = taskerId, WorkerId = workerId\<rparr> b) of
        Some err \<Rightarrow> ''Error adding task for '' @ workerId @ '': '' @ Error err @ [CHR 0x0A]
      | None \<Rightarrow> ''Added task for '' @ workerId @ '' from '' @ taskerId @ [CHR 0x0A])"
  by (cases "persistTask \<lparr>Id' = uuid, Name = name, Description = description,
                       Timestamp = now, TaskerId = taskerId, WorkerId = workerId\<rparr> b")
     (simp add: createTask_def Let_def split: option.splits)

lemma bound_assigned:
  "bound\<lparr>Id' := uuid, Timestamp := now\<rparr> =
     \<lparr>Id' = uuid, Name = Name bound, Description = Description bound,
      Timestamp = now, TaskerId = TaskerId bound, WorkerId = WorkerId bound\<rparr>"
  by simp

text \<open>
  Claim C3. Creating a task writes the field map (\<open>HSET\<close>) before the index entry
  (\<open>ZADD\<close>). If the backend refuses the field-map write, that error is returned, the index
  write is not issued and nothing is stored; if it refuses the index write, that error is
  returned with the field map written. If both writes are carried out, no error is
  returned, the field map and the index entry are stored, and the task is fully
  populated: the handler of \<^verbatim>\<open>POST /task\<close> assigns the id and the timestamp, issues
  exactly these two writes for the task with its six attributes, and replies 201 with
  that task; \<^verbatim>\<open>createTask\<close> does the same writes for the task built from its four
  arguments, the id and the timestamp.
\<close>

theorem create_writes_in_order:
  "(outcome b = Some err \<longrightarrow>
      fst (persistTask task b) = Some err \<and>
      trace (snd (persistTask task b)) =
        trace b @
        [HSET (''task:'' @ Id' task)
           [(''Id'', Id' task), (''Name'', Name task),
            (''Description'', Description task),
            (''Timestamp'', FormatInt (Timestamp task)),
            (''TaskerId'', TaskerId task), (''WorkerId'', WorkerId task)]] \<and>
      hashes (snd (persistTask task b)) = hashes b \<and>
      zsets (snd (persistTask task b)) = zsets b) \<and>
   (script b = None # Some err # rest \<longrightarrow>
      fst (persistTask task b) = Some err \<and>
      trace (snd (persistTask task b)) =
        trace b @
        [HSET (''task:'' @ Id' task)
           [(''Id'', Id' task), (''Name'', Name task),
            (''Description'', Description task),
            (''Timestamp'', FormatInt (Timestamp task)),
            (''TaskerId'', TaskerId task), (''WorkerId'', WorkerId task)],
         ZADD ''tasks'' (float64_of_int64 (Timestamp task)) (Id' task)] \<and>
      hashes (snd (persistTask task b)) =
        (hashes b)(''task:'' @ Id' task :=
           hset_merge (hashes b (''task:'' @ Id' task))
             [(''Id'', Id' task), (''Name'', Name task),
              (''Description'', Description task),
              (''Timestamp'', FormatInt (Timestamp task)),
              (''TaskerId'', TaskerId task), (''WorkerId'', WorkerId task)]) \<and>
      zsets (snd (persistTask task b)) = zsets b) \<and>
   (available 2 b \<longrightarrow>
      fst (persistTask task b) = None \<and>
      trace (snd (persistTask task b)) =
        trace b @
        [HSET (''task:'' @ Id' task)
           [(''Id'', Id' task), (''Name'', Name task),
            (''Description'', Description task),
            (''Timestamp'', FormatInt (Timestamp task)),
            (''TaskerId'', TaskerId task), (''WorkerId'', WorkerId task)],
         ZADD ''tasks'' (float64_of_int64 (Timestamp task)) (Id' task)] \<and>
      hashes (snd (persistTask task b)) =
        (hashes b)(''task:'' @ Id' task :=
           hset_merge (hashes b (''task:'' @ Id' task))
             [(''Id'', Id' task), (''Name'', Name task),
              (''Description'', Description task),
              (''Timestamp'', FormatInt (Timestamp task)),
              (''TaskerId'', TaskerId task), (''WorkerId'', WorkerId task)]) \<and>
      zsets (snd (persistTask task b)) =
        (zsets b)(''tasks'' :=
           AList.update (Id' task) (float64_of_int64 (Timestamp task)) (zsets b ''tasks''))) \<and>
   snd (POST_task bound None uuid now b) =
     snd (persistTask \<lparr>Id' = uuid, Name = Name bound, Description = Description bound,
                       Timestamp = now, TaskerId = TaskerId bound,
                       WorkerId = WorkerId bound\<rparr> b) \<and>
   (available 2 b \<longrightarrow>
      fst (POST_task bound None uuid now b) =
        \<lparr>status = 201,
         reply_task = \<lparr>Id' = uuid, Name = Name bound, Description = Description bound,
                        Timestamp = now, TaskerId = TaskerId bound,
                        WorkerId = WorkerId bound\<rparr>,
         created = True, message = ''Task Created Successfully''\<rparr> \<and>
      trace (snd (POST_task bound None uuid now b)) =
        trace b @
        [HSET (''task:'' @ uuid)
           [(''Id'', uuid), (''Name'', Name bound),
            (''Description'', Description bound),
            (''Timestamp'', FormatInt now),
            (''TaskerId'', TaskerId bound), (''WorkerId'', WorkerId bound)],
         ZADD ''tasks'' (float64_of_int64 now) uuid] \<and>
      hashes (snd (POST_task bound None uuid now b)) =
        (hashes b)(''task:'' @ uuid :=
           hset_merge (hashes b (''task:'' @ uuid))
             [(''Id'', uuid), (''Name'', Name bound),
              (''Description'', Description bound),
              (''Timestamp'', FormatInt now),
              (''TaskerId'', TaskerId bound), (''WorkerId'', WorkerId bound)]) \<and>
      zsets (snd (POST_task bound None uuid now b)) =
        (zsets b)(''tasks'' :=
           AList.update uuid (float64_of_int64 now) (zsets b ''tasks''))) \<and>
   (outcome b = Some err \<longrightarrow>
      fst (POST_task bound None uuid now b) =
        \<lparr>status = 500,
         reply_task = \<lparr>Id' = uuid, Name = Name bound, Description = Description bound,
                        Timestamp = now, TaskerId = TaskerId bound,
                        WorkerId = WorkerId bound\<rparr>,
         created = False, message = Error err\<rparr> \<and>
      trace (snd (POST_task bound None uuid now b)) =
        trace b @
        [HSET (''task:'' @ uuid)
           [(''Id'', uuid), (''Name'', Name bound),
            (''Description'', Description bound),
            (''Timestamp'', FormatInt now),
            (''TaskerId'', TaskerId bound), (''WorkerId'', WorkerId bound)]] \<and>
      hashes (snd (POST_task bound None uuid now b)) = hashes b \<and>
      zsets (snd (POST_task bound None uuid now b)) = zsets b) \<and>
   snd (createTask uuid now taskerId workerId name description b) =
     snd (persistTask \<lparr>Id' = uuid, Name = name, Description = description,
                       Timestamp = now, TaskerId = taskerId, WorkerId = workerId\<rparr> b) \<and>
   (available 2 b \<longrightarrow>
      fst (createTask uuid now taskerId workerId name description b) =
        ''Added task for '' @ workerId @ '' from '' @ taskerId @ [CHR 0x0A] \<and>
      trace (snd (createTask uuid now taskerId workerId name description b)) =
        trace b @
        [HSET (''task:'' @ uuid)
           [(''Id'', uuid), (''Name'', name), (''Description'', description),
            (''Timestamp'', FormatInt now),
            (''TaskerId'', taskerId), (''WorkerId'', workerId)],
         ZADD ''tasks'' (float64_of_int64 now) uuid])"
proof -
  let ?posted = "\<lparr>Id' = uuid, Name = Name bound, Description = Description bound,
                   Timestamp = now, TaskerId = TaskerId bound, WorkerId = WorkerId bound\<rparr>"
  let ?made = "\<lparr>Id' = uuid, Name = name, Description = description,
                 Timestamp = now, TaskerId = taskerId, WorkerId = workerId\<rparr>"
  have post_state: "snd (POST_task bound None uuid now b) = snd (persistTask ?posted b)"
    using POST_task_state [of bound uuid now b] by (simp only: bound_assigned)
  have post_reply: "fst (POST_task bound None uuid now b) =
     (case fst (persistTask ?posted b) of
        Some err \<Rightarrow> \<lparr>status = 500, reply_task = ?posted, created = False, message = Error err\<rparr>
      | None \<Rightarrow> \<lparr>status = 201, reply_task = ?posted, created = True,
                  message = ''Task Created Successfully''\<rparr>)"
    using POST_task_reply [of bound uuid now b] by (simp only: bound_assigned)
  have made_state: "snd (createTask uuid now taskerId workerId name description b) =
      snd (persistTask ?made b)"
    by (rule createTask_state)
  have c1: "outcome b = Some err \<longrightarrow>
      fst (persistTask task b) = Some err \<and>
      trace (snd (persistTask task b)) =
        trace b @
        [HSET (''task:'' @ Id' task)
           [(''Id'', Id' task), (''Name'', Name task),
            (''Description'', Description task),
            (''Timestamp'', FormatInt (Timestamp task)),
            (''TaskerId'', TaskerId task), (''WorkerId'', WorkerId task)]] \<and>
      hashes (snd (persistTask task b)) = hashes b \<and>
      zsets (snd (persistTask task b)) = zsets b"
    by (simp add: persistTask_refused)
  have c2: "script b = None # Some err # rest \<longrightarrow>
      fst (persistTask task b) = Some err \<and>
      trace (snd (persistTask task b)) =
        trace b @
        [HSET (''task:'' @ Id' task)
           [(''Id'', Id' task), (''Name'', Name task),
            (''Description'', Description task),
            (''Timestamp'', FormatInt (Timestamp task)),
            (''TaskerId'', TaskerId task), (''WorkerId'', WorkerId task)],
         ZADD ''tasks'' (float64_of_int64 (Timestamp task)) (Id' task)] \<and>
      hashes (snd (persistTask task b)) =
        (hashes b)(''task:'' @ Id' task :=
           hset_merge (hashes b (''task:'' @ Id' task))
             [(''Id'', Id' task), (''Name'', Name task),
              (''Description'', Description task),
              (''Timestamp'', FormatInt (Timestamp task)),
              (''TaskerId'', TaskerId task), (''WorkerId'', WorkerId task)]) \<and>
      zsets (snd (persistTask task b)) = zsets b"
    using persistTask_second_refused [of b err rest task]
      persistTask_second_trace [of b err rest task] by blast
  have ok: "\<And>t. available 2 b \<Longrightarrow>
      fst (persistTask t b) = None \<and>
      trace (snd (persistTask t b)) =
        trace b @
        [HSET (''task:'' @ Id' t)
           [(''Id'', Id' t), (''Name'', Name t),
            (''Description'', Description t),
            (''Timestamp'', FormatInt (Timestamp t)),
            (''TaskerId'', TaskerId t), (''WorkerId'', WorkerId t)],
         ZADD ''tasks'' (float64_of_int64 (Timestamp t)) (Id' t)] \<and>
      hashes (snd (persistTask t b)) =
        (hashes b)(''task:'' @ Id' t :=
           hset_merge (hashes b (''task:'' @ Id' t))
             [(''Id'', Id' t), (''Name'', Name t),
              (''Description'', Description t),
              (''Timestamp'', FormatInt (Timestamp t)),
              (''TaskerId'', TaskerId t), (''WorkerId'', WorkerId t)]) \<and>
      zsets (snd (persistTask t b)) =
        (zsets b)(''tasks'' :=
           AList.update (Id' t) (float64_of_int64 (Timestamp t)) (zsets b ''tasks''))"
  proof -
    fix t assume a: "available 2 b"
    show "fst (persistTask t b) = None \<and>
      trace (snd (persistTask t b)) =
        trace b @
        [HSET (''task:'' @ Id' t)
           [(''Id'', Id' t), (''Name'', Name t),
            (''Description'', Description t),
            (''Timestamp'', FormatInt (Timestamp t)),
            (''TaskerId'', TaskerId t), (''WorkerId'', WorkerId t)],
         ZADD ''tasks'' (float64_of_int64 (Timestamp t)) (Id' t)] \<and>
      hashes (snd (persistTask t b)) =
        (hashes b)(''task:'' @ Id' t :=
           hset_merge (hashes b (''task:'' @ Id' t))
             [(''Id'', Id' t), (''Name'', Name t),
              (''Description'', Description t),
              (''Timestamp'', FormatInt (Timestamp t)),
              (''TaskerId'', TaskerId t), (''WorkerId'', WorkerId t)]) \<and>
      zsets (snd (persistTask t b)) =
        (zsets b)(''tasks'' :=
           AList.update (Id' t) (float64_of_int64 (Timestamp t)) (zsets b ''tasks''))"
      using persistTask_available [OF a, of t] persistTask_data [OF persistTask_ran [OF a, of t]]
      by blast
  qed
  have c5: "available 2 b \<longrightarrow>
      fst (POST_task bound None uuid now b) =
        \<lparr>status = 201, reply_task = ?posted, created = True,
         message = ''Task Created Successfully''\<rparr> \<and>
      trace (snd (POST_task bound None uuid now b)) =
        trace b @
        [HSET (''task:'' @ uuid)
           [(''Id'', uuid), (''Name'', Name bound),
            (''Description'', Description bound),
            (''Timestamp'', FormatInt now),
            (''TaskerId'', TaskerId bound), (''WorkerId'', WorkerId bound)],
         ZADD ''tasks'' (float64_of_int64 now) uuid] \<and>
      hashes (snd (POST_task bound None uuid now b)) =
        (hashes b)(''task:'' @ uuid :=
           hset_merge (hashes b (''task:'' @ uuid))
             [(''Id'', uuid), (''Name'', Name bound),
              (''Description'', Description bound),
              (''Timestamp'', FormatInt now),
              (''TaskerId'', TaskerId bound), (''WorkerId'', WorkerId bound)]) \<and>
      zsets (snd (POST_task bound None uuid now b)) =
        (zsets b)(''tasks'' :=
           AList.update uuid (float64_of_int64 now) (zsets b ''tasks''))"
    using ok [of ?posted] by (simp add: post_state post_reply)
  have c6: "outcome b = Some err \<longrightarrow>
      fst (POST_task bound None uuid now b) =
        \<lparr>status = 500, reply_task = ?posted, created = False, message = Error err\<rparr> \<and>
      trace (snd (POST_task bound None uuid now b)) =
        trace b @
        [HSET (''task:'' @ uuid)
           [(''Id'', uuid), (''Name'', Name bound),
            (''Description'', Description bound),
            (''Timestamp'', FormatInt now),
            (''TaskerId'', TaskerId bound), (''WorkerId'', WorkerId bound)]] \<and>
      hashes (snd (POST_task bound None uuid now b)) = hashes b \<and>
      zsets (snd (POST_task bound None uuid now b)) = zsets b"
    by (simp add: post_state post_reply persistTask_refused)
  have c8: "available 2 b \<longrightarrow>
      fst (createTask uuid now taskerId workerId name description b) =
        ''Added task for '' @ workerId @ '' from '' @ taskerId @ [CHR 0x0A] \<and>
      trace (snd (createTask uuid now taskerId workerId name description b)) =
        trace b @
        [HSET (''task:'' @ uuid)
           [(''Id'', uuid), (''Name'', name), (''Description'', description),
            (''Timestamp'', FormatInt now),
            (''TaskerId'', taskerId), (''WorkerId'', workerId)],
         ZADD ''tasks'' (float64_of_int64 now) uuid]"
    using ok [of ?made] by (simp add: made_state createTask_line)
  show ?thesis
    using c1 c2 ok [of task] post_state c5 c6 made_state c8 by blast
qed

theorem create_writes_in_order_witness:
  "outcome (empty_store\<lparr>script := [Some (StoreError ''connection refused'')]\<rparr>)
     = Some (StoreError ''connection refused'') \<and>
   fst (persistTask \<lparr>Id' = ''a'', Name = ''A'', Description = ''B'', Timestamp = 7,
                     TaskerId = ''t1'', WorkerId = ''w1''\<rparr>
          (empty_store\<lparr>script := [Some (StoreError ''connection refused'')]\<rparr>))
     = Some (StoreError ''connection refused'') \<and>
   trace (snd (persistTask \<lparr>Id' = ''a'', Name = ''A'', Description = ''B'', Timestamp = 7,
                     TaskerId = ''t1'', WorkerId = ''w1''\<rparr>
          (empty_store\<lparr>script := [Some (StoreError ''connection refused'')]\<rparr>))) =
     [HSET ''task:a'' [(''Id'', ''a''), (''Name'', ''A''), (''Description'', ''B''),
        (''Timestamp'', ''7''), (''TaskerId'', ''t1''), (''WorkerId'', ''w1'')]] \<and>
   script (empty_store\<lparr>script := [None, Some (StoreError ''connection refused'')]\<rparr>)
     = None # Some (StoreError ''connection refused'') # [] \<and>
   fst (persistTask \<lparr>Id' = ''a'', Name = ''A'', Description = ''B'', Timestamp = 7,
                     TaskerId = ''t1'', WorkerId = ''w1''\<rparr>
          (empty_store\<lparr>script := [None, Some (StoreError ''connection refused'')]\<rparr>))
     = Some (StoreError ''connection refused'') \<and>
   available 2 empty_store \<and>
   fst (POST_task \<lparr>Id' = [], Name = ''A'', Description = ''B'', Timestamp = 0,
                   TaskerId = ''t1'', WorkerId = ''w1''\<rparr> None ''a'' 7 empty_store) =
     \<lparr>status = 201,
      reply_task = \<lparr>Id' = ''a'', Name = ''A'', Description = ''B'', Timestamp = 7,
                     TaskerId = ''t1'', WorkerId = ''w1''\<rparr>,
      created = True, message = ''Task Created Successfully''\<rparr> \<and>
   trace (snd (POST_task \<lparr>Id' = [], Name = ''A'', Description = ''B'', Timestamp = 0,
                   TaskerId = ''t1'', WorkerId = ''w1''\<rparr> None ''a'' 7 empty_store)) =
     [HSET ''task:a'' [(''Id'', ''a''), (''Name'', ''A''), (''Description'', ''B''),
        (''Timestamp'', ''7''), (''TaskerId'', ''t1''), (''WorkerId'', ''w1'')],
      ZADD ''tasks'' 7 ''a''] \<and>
   hashes (snd (POST_task \<lparr>Id' = [], Name = ''A'', Description = ''B'', Timestamp = 0,
                   TaskerId = ''t1'', WorkerId = ''w1''\<rparr> None ''a'' 7 empty_store))
       ''task:a'' =
     [(''Id'', ''a''), (''Name'', ''A''), (''Description'', ''B''),
      (''Timestamp'', ''7''), (''TaskerId'', ''t1''), (''WorkerId'', ''w1'')] \<and>
   zsets (snd (POST_task \<lparr>Id' = [], Name = ''A'', Description = ''B'', Timestamp = 0,
                   TaskerId = ''t1'', WorkerId = ''w1''\<rparr> None ''a'' 7 empty_store))
       ''tasks'' = [(''a'', 7)] \<and>
   trace (snd (createTask ''a'' 7 ''t1'' ''w1'' ''A'' ''B'' empty_store)) =
     [HSET ''task:a'' [(''Id'', ''a''), (''Name'', ''A''), (''Description'', ''B''),
        (''Timestamp'', ''7''), (''TaskerId'', ''t1''), (''WorkerId'', ''w1'')],
      ZADD ''tasks'' 7 ''a'']"
proof -
  let ?e = "StoreError ''connection refused''"
  let ?down = "empty_store\<lparr>script := [Some ?e]\<rparr>"
  let ?half = "empty_store\<lparr>script := [None, Some ?e]\<rparr>"
  let ?task = "\<lparr>Id' = ''a'', Name = ''A'', Description = ''B'', Timestamp = 7,
                TaskerId = ''t1'', WorkerId = ''w1''\<rparr>"
  let ?bound = "\<lparr>Id' = [], Name = ''A'', Description = ''B'', Timestamp = 0,
                TaskerId = ''t1'', WorkerId = ''w1''\<rparr>"
  note down = create_writes_in_order
    [where b = ?down and err = ?e and task = ?task and rest = "[]"]
  note half = create_writes_in_order
    [where b = ?half and err = ?e and task = ?task and rest = "[]"]
  note up = create_writes_in_order
    [where b = empty_store and bound = ?bound and uuid = "''a''" and now = 7
       and taskerId = "''t1''" and workerId = "''w1''" and name = "''A''"
       and description = "''B''"]
  have refused: "outcome ?down = Some ?e"
    by (simp add: outcome_def empty_store_def)
  have second: "script ?half = None # Some ?e # []"
    by simp
  have ok: "available 2 empty_store"
    by (simp add: available_def empty_store_def)
  have seven: "FormatInt 7 = ''7''" "float64_of_int64 7 = 7"
    by (simp_all add: FormatInt_def digits10.simps digit_chars float64_of_int64_def)
  note d1 = mp [OF conjunct1 [OF down] refused]
  have w1: "fst (persistTask ?task ?down) = Some ?e"
    using d1 by simp
  have w2: "trace (snd (persistTask ?task ?down)) =
     [HSET ''task:a'' [(''Id'', ''a''), (''Name'', ''A''), (''Description'', ''B''),
        (''Timestamp'', ''7''), (''TaskerId'', ''t1''), (''WorkerId'', ''w1'')]]"
    using d1 by (simp add: seven empty_store_def)
  note h1 = mp [OF conjunct1 [OF conjunct2 [OF half]] second]
  have w3: "fst (persistTask ?task ?half) = Some ?e"
    using h1 by simp
  note rest = conjunct2 [OF conjunct2 [OF conjunct2 [OF conjunct2 [OF up]]]]
  note u5 = mp [OF conjunct1 [OF rest] ok]
  note u8 = mp [OF conjunct2 [OF conjunct2 [OF conjunct2 [OF rest]]] ok]
  have w4: "fst (POST_task ?bound None ''a'' 7 empty_store) =
     \<lparr>status = 201, reply_task = ?task, created = True,
      message = ''Task Created Successfully''\<rparr>"
    using u5 by simp
  have w5: "trace (snd (POST_task ?bound None ''a'' 7 empty_store)) =
     [HSET ''task:a'' [(''Id'', ''a''), (''Name'', ''A''), (''Description'', ''B''),
        (''Timestamp'', ''7''), (''TaskerId'', ''t1''), (''WorkerId'', ''w1'')],
      ZADD ''tasks'' 7 ''a'']"
    using u5 by (simp add: seven empty_store_def)
  have w6: "hashes (snd (POST_task ?bound None ''a'' 7 empty_store)) ''task:a'' =
     [(''Id'', ''a''), (''Name'', ''A''), (''Description'', ''B''),
      (''Timestamp'', ''7''), (''TaskerId'', ''t1''), (''WorkerId'', ''w1'')]"
    using u5 by (simp add: seven empty_store_def hset_merge_def)
  have w7: "zsets (snd (POST_task ?bound None ''a'' 7 empty_store)) ''tasks'' = [(''a'', 7)]"
    using u5 by (simp add: seven empty_store_def)
  have w8: "trace (snd (createTask ''a'' 7 ''t1'' ''w1'' ''A'' ''B'' empty_store)) =
     [HSET ''task:a'' [(''Id'', ''a''), (''Name'', ''A''), (''Description'', ''B''),
        (''Timestamp'', ''7''), (''TaskerId'', ''t1''), (''WorkerId'', ''w1'')],
      ZADD ''tasks'' 7 ''a'']"
    using u8 by (simp add: seven empty_store_def)
  show ?thesis
    by (intro conjI) (rule refused w1 w2 second w3 ok w4 w5 w6 w7 w8)+
qed

section \<open>What \<^verbatim>\<open>strconv.ParseInt\<close> makes of a text, by the shape of the text\<close>

lemma digit_step_overflow:
  assumes "d \<le> 9" and "n \<le> 18446744073709551615"
  shows "(n \<ge> 1844674407370955162 \<or>
          (n * 10 + d) mod 18446744073709551616 < n * 10 \<or>
          (n * 10 + d) mod 18446744073709551616 > 18446744073709551615)
         \<longleftrightarrow> n * 10 + d > (18446744073709551615 :: nat)"
proof (cases "n * 10 + d < 18446744073709551616")
  case True
  then show ?thesis by simp
next
  case False
  show ?thesis
  proof (cases "n \<ge> 1844674407370955162")
    case True
    then show ?thesis by simp
  next
    case low: False
    have big: "18446744073709551616 \<le> n * 10 + d" using False by simp
    have "n * 10 + d < 2 * 18446744073709551616" using low assms(1) by simp
    then have m: "(n * 10 + d) mod 18446744073709551616 = n * 10 + d - 18446744073709551616"
      using big by (simp add: mod_if)
    have "n * 10 + d - 18446744073709551616 < n * 10"
      using big assms(1) by arith
    then show ?thesis using big m by simp
  qed
qed

lemma digit_step_value:
  assumes "n * 10 + d \<le> (18446744073709551615 :: nat)"
  shows "(n * 10 + d) mod 18446744073709551616 = n * 10 + d"
  using assms by simp

lemma ParseUint_loop_digit:
  assumes "is_digit c" and "n \<le> maxUint64"
  shows "ParseUint_loop n (c # cs) =
           (if n * 10 + ((of_char c :: nat) - 48) > maxUint64 then (maxUint64, Some ErrRange)
            else ParseUint_loop (n * 10 + ((of_char c :: nat) - 48)) cs)"
proof -
  define d where "d = (of_char c :: nat) - 48"
  have c: "48 \<le> (of_char c :: nat) \<and> (of_char c :: nat) \<le> 57"
    using assms(1) by (simp add: is_digit_def)
  have d: "d \<le> 9"
    using c unfolding d_def by arith
  have n: "n \<le> 18446744073709551615"
    using assms(2) by (simp add: maxUint64_def)
  show ?thesis
  proof (cases "n * 10 + d > 18446744073709551615")
    case True
    then have "n \<ge> 1844674407370955162 \<or>
          (n * 10 + d) mod 18446744073709551616 < n * 10 \<or>
          (n * 10 + d) mod 18446744073709551616 > 18446744073709551615"
      using digit_step_overflow [OF d n] by blast
    then show ?thesis
      using True c by (auto simp add: maxUint64_def Let_def d_def [symmetric])
  next
    case False
    then have no: "\<not> (n \<ge> 1844674407370955162 \<or>
          (n * 10 + d) mod 18446744073709551616 < n * 10 \<or>
          (n * 10 + d) mod 18446744073709551616 > 18446744073709551615)"
      using digit_step_overflow [OF d n] by blast
    have "(n * 10 + d) mod 18446744073709551616 = n * 10 + d"
      using False by simp
    then show ?thesis
      using False no c by (simp add: maxUint64_def Let_def d_def [symmetric])
  qed
qed

lemma ParseUint_loop_other:
  "\<not> is_digit c \<Longrightarrow> ParseUint_loop n (c # cs) = (0, Some ErrSyntax)"
  by (auto simp add: is_digit_def)

lemma foldl_digits_ge:
  "n \<le> foldl (\<lambda>n c. n * 10 + ((of_char c :: nat) - 48)) n ds"
proof (induction ds arbitrary: n)
  case Nil
  show ?case by simp
next
  case (Cons c ds)
  have "n \<le> n * 10 + ((of_char c :: nat) - 48)" by simp
  then show ?case
    using Cons [of "n * 10 + ((of_char c :: nat) - 48)"] by simp
qed

lemma ParseUint_loop_shape:
  "n \<le> maxUint64 \<Longrightarrow>
   ParseUint_loop n s =
     (if foldl (\<lambda>n c. n * 10 + ((of_char c :: nat) - 48)) n (takeWhile is_digit s) > maxUint64
      then (maxUint64, Some ErrRange)
      else if dropWhile is_digit s \<noteq> [] then (0, Some ErrSyntax)
      else (foldl (\<lambda>n c. n * 10 + ((of_char c :: nat) - 48)) n (takeWhile is_digit s), None))"
proof (induction s arbitrary: n)
  case Nil
  then show ?case by simp
next
  case (Cons c cs)
  show ?case
  proof (cases "is_digit c")
    case False
    then show ?thesis
      using Cons.prems by (simp add: ParseUint_loop_other del: ParseUint_loop.simps)
  next
    case True
    show ?thesis
    proof (cases "n * 10 + ((of_char c :: nat) - 48) > maxUint64")
      case over: True
      have "maxUint64 < foldl (\<lambda>n c. n * 10 + ((of_char c :: nat) - 48))
                (n * 10 + ((of_char c :: nat) - 48)) (takeWhile is_digit cs)"
        using over foldl_digits_ge [of "n * 10 + ((of_char c :: nat) - 48)" "takeWhile is_digit cs"]
        by linarith
      then show ?thesis
        using True over ParseUint_loop_digit [OF True Cons.prems, of cs]
        by (simp del: ParseUint_loop.simps)
    next
      case fits: False
      then have "n * 10 + ((of_char c :: nat) - 48) \<le> maxUint64" by simp
      then show ?thesis
        using True fits ParseUint_loop_digit [OF True Cons.prems, of cs] Cons.IH
        by (simp del: ParseUint_loop.simps)
    qed
  qed
qed

lemma ParseUint_shape:
  "ParseUint s =
     (if s = [] then (0, Some ErrSyntax)
      else if decimal_value (takeWhile is_digit s) > maxUint64 then (maxUint64, Some ErrRange)
      else if dropWhile is_digit s \<noteq> [] then (0, Some ErrSyntax)
      else (decimal_value (takeWhile is_digit s), None))"
  using ParseUint_loop_shape [of 0 s]
  by (simp add: ParseUint_def decimal_value_def maxUint64_def)

lemma ParseInt_unsigned:
  "ParseInt s =
     (if s = [] then (0, Some ErrSyntax)
      else case ParseUint (unsigned_part s) of (un, err) \<Rightarrow>
        if err = Some ErrSyntax then (0, err)
        else if \<not> negative s \<and> un \<ge> 2 ^ 63 then (word_of_nat (2 ^ 63 - 1), Some ErrRange)
        else if negative s \<and> un > 2 ^ 63 then (- word_of_nat (2 ^ 63), Some ErrRange)
        else (if negative s then - word_of_nat un else word_of_nat un, None))"
  by (auto simp add: ParseInt_def unsigned_part_def negative_def Let_def split: prod.splits)

lemma ParseInt_shape:
  "ParseInt s =
     (if unsigned_part s = [] then (0, Some ErrSyntax)
      else if decimal_value (leading_digits s) > maxUint64
        then (if negative s then - 9223372036854775808 else 9223372036854775807, Some ErrRange)
      else if dropWhile is_digit (unsigned_part s) \<noteq> [] then (0, Some ErrSyntax)
      else if \<not> negative s \<and> decimal_value (leading_digits s) \<ge> 2 ^ 63
        then (9223372036854775807, Some ErrRange)
      else if negative s \<and> decimal_value (leading_digits s) > 2 ^ 63
        then (- 9223372036854775808, Some ErrRange)
      else (if negative s then - word_of_nat (decimal_value (leading_digits s))
            else word_of_nat (decimal_value (leading_digits s)), None))"
proof (cases "s = []")
  case True
  then show ?thesis by (simp add: ParseInt_unsigned unsigned_part_def)
next
  case False
  show ?thesis
    unfolding ParseInt_unsigned ParseUint_shape leading_digits_def
    using False by (simp add: maxUint64_def)
qed

lemma decimal_integer_digits:
  assumes "decimal_integer s"
  shows "unsigned_part s \<noteq> []" and "leading_digits s = unsigned_part s"
    and "dropWhile is_digit (unsigned_part s) = []"
  using assms by (simp_all add: decimal_integer_def leading_digits_def list_all_iff)

lemma not_decimal_integer:
  assumes "\<not> decimal_integer s"
  shows "unsigned_part s = [] \<or> dropWhile is_digit (unsigned_part s) \<noteq> []"
  using assms by (auto simp add: decimal_integer_def list_all_iff dropWhile_eq_Nil_conv)

lemma ParseInt_in_range:
  assumes "decimal_integer s" and "- (2 ^ 63) \<le> denoted s" and "denoted s < 2 ^ 63"
  shows "ParseInt s = (word_of_int (denoted s), None)"
proof -
  define v where "v = decimal_value (unsigned_part s)"
  note shape = decimal_integer_digits [OF assms(1)]
  show ?thesis
  proof (cases "negative s")
    case True
    then have "v \<le> 2 ^ 63"
      using assms(2) by (simp add: denoted_def v_def)
    then show ?thesis
      using True shape
      by (simp add: ParseInt_shape [of s] maxUint64_def denoted_def v_def [symmetric])
  next
    case False
    then have "v < 2 ^ 63"
      using assms(3) by (simp add: denoted_def v_def)
    then show ?thesis
      using False shape
      by (simp add: ParseInt_shape [of s] maxUint64_def denoted_def v_def [symmetric])
  qed
qed

lemma ParseInt_above:
  assumes "decimal_integer s" and "2 ^ 63 \<le> denoted s"
  shows "ParseInt s = (9223372036854775807, Some ErrRange)"
proof -
  define v where "v = decimal_value (unsigned_part s)"
  note shape = decimal_integer_digits [OF assms(1)]
  have pos: "\<not> negative s"
    using assms(2) by (auto simp add: denoted_def split: if_splits)
  then have "2 ^ 63 \<le> v"
    using assms(2) by (simp add: denoted_def v_def)
  then show ?thesis
    using pos shape
    by (simp add: ParseInt_shape [of s] maxUint64_def v_def [symmetric])
qed

lemma ParseInt_below:
  assumes "decimal_integer s" and "denoted s < - (2 ^ 63)"
  shows "ParseInt s = (- 9223372036854775808, Some ErrRange)"
proof -
  define v where "v = decimal_value (unsigned_part s)"
  note shape = decimal_integer_digits [OF assms(1)]
  have neg: "negative s"
    using assms(2) by (auto simp add: denoted_def split: if_splits)
  then have "2 ^ 63 < v"
    using assms(2) by (simp add: denoted_def v_def)
  then show ?thesis
    using neg shape
    by (simp add: ParseInt_shape [of s] maxUint64_def v_def [symmetric])
qed

lemma ParseInt_malformed:
  assumes "\<not> decimal_integer s" and "decimal_value (leading_digits s) \<le> 2 ^ 64 - 1"
  shows "ParseInt s = (0, Some ErrSyntax)"
  using not_decimal_integer [OF assms(1)] assms(2)
  by (auto simp add: ParseInt_shape [of s] maxUint64_def)

lemma ParseInt_malformed_overflow:
  assumes "decimal_value (leading_digits s) > 2 ^ 64 - 1"
  shows "ParseInt s =
           (if negative s then - 9223372036854775808 else 9223372036854775807, Some ErrRange)"
proof -
  have "leading_digits s \<noteq> []"
    using assms by (auto simp add: decimal_value_def)
  then have "unsigned_part s \<noteq> []"
    by (auto simp add: leading_digits_def)
  then show ?thesis
    using assms by (simp add: ParseInt_shape [of s] maxUint64_def)
qed

text \<open>
  Claim C4, as amended. \<^verbatim>\<open>fetchTask\<close> returns absent, and no error, exactly when the
  backend answers and the field map under \<^verbatim>\<open>task:<id>\<close> is empty; creating tasks
  under other ids leaves an id absent. A field map that is not empty is made into a task
  from its string fields, whatever the \<^verbatim>\<open>Timestamp\<close> field holds. Read that field as an
  optional sign and the rest. When the rest is one or more decimal digits and nothing
  else, the timestamp is the integer denoted if it is in the range of \<^verbatim>\<open>int64\<close>, and
  the nearest bound otherwise, \<open>2 ^ 63 - 1\<close> or \<open>- (2 ^ 63)\<close>. When it is not, the timestamp
  is zero, unless the digits the rest starts with denote more than \<open>2 ^ 64 - 1\<close>: then it
  is \<open>- (2 ^ 63)\<close> after a minus sign and \<open>2 ^ 63 - 1\<close> without one.
\<close>

theorem fetch_absent_or_deserialized:
  "(fst (fetchTask id' b) = Inr None \<longleftrightarrow>
      outcome b = None \<and> hashes b (''task:'' @ id') = []) \<and>
   (hashes b (''task:'' @ id') = [] \<and> Id' task \<noteq> id' \<longrightarrow>
      hashes (snd (persistTask task b)) (''task:'' @ id') = []) \<and>
   (outcome b = None \<and> hashes b (''task:'' @ id') \<noteq> [] \<longrightarrow>
      fst (fetchTask id' b) =
        Inr (Some \<lparr>Id' = map_index (hashes b (''task:'' @ id')) ''Id'',
                   Name = map_index (hashes b (''task:'' @ id')) ''Name'',
                   Description = map_index (hashes b (''task:'' @ id')) ''Description'',
                   Timestamp =
                     fst (ParseInt (map_index (hashes b (''task:'' @ id')) ''Timestamp'')),
                   TaskerId = map_index (hashes b (''task:'' @ id')) ''TaskerId'',
                   WorkerId = map_index (hashes b (''task:'' @ id')) ''WorkerId''\<rparr>)) \<and>
   (decimal_integer s \<and> - (2 ^ 63) \<le> denoted s \<and> denoted s < 2 ^ 63 \<longrightarrow>
      ParseInt s = (word_of_int (denoted s), None)) \<and>
   (decimal_integer s \<and> 2 ^ 63 \<le> denoted s \<longrightarrow>
      ParseInt s = (9223372036854775807, Some ErrRange)) \<and>
   (decimal_integer s \<and> denoted s < - (2 ^ 63) \<longrightarrow>
      ParseInt s = (- 9223372036854775808, Some ErrRange)) \<and>
   (\<not> decimal_integer s \<and> decimal_value (leading_digits s) \<le> 2 ^ 64 - 1 \<longrightarrow>
      ParseInt s = (0, Some ErrSyntax)) \<and>
   (\<not> decimal_integer s \<and> decimal_value (leading_digits s) > 2 ^ 64 - 1 \<longrightarrow>
      ParseInt s =
        (if negative s then - 9223372036854775808 else 9223372036854775807, Some ErrRange))"
proof (intro conjI impI)
  show "fst (fetchTask id' b) = Inr None \<longleftrightarrow>
      outcome b = None \<and> hashes b (''task:'' @ id') = []"
    by (auto simp add: fetchTask_result Let_def split: option.splits)
next
  assume "hashes b (''task:'' @ id') = [] \<and> Id' task \<noteq> id'"
  then show "hashes (snd (persistTask task b)) (''task:'' @ id') = []"
    using persistTask_other_key [of task id' b] by simp
next
  assume "outcome b = None \<and> hashes b (''task:'' @ id') \<noteq> []"
  then show "fst (fetchTask id' b) =
        Inr (Some \<lparr>Id' = map_index (hashes b (''task:'' @ id')) ''Id'',
                   Name = map_index (hashes b (''task:'' @ id')) ''Name'',
                   Description = map_index (hashes b (''task:'' @ id')) ''Description'',
                   Timestamp =
                     fst (ParseInt (map_index (hashes b (''task:'' @ id')) ''Timestamp'')),
                   TaskerId = map_index (hashes b (''task:'' @ id')) ''TaskerId'',
                   WorkerId = map_index (hashes b (''task:'' @ id')) ''WorkerId''\<rparr>)"
    by (simp add: fetchTask_result Let_def)
next
  assume "decimal_integer s \<and> - (2 ^ 63) \<le> denoted s \<and> denoted s < 2 ^ 63"
  then show "ParseInt s = (word_of_int (denoted s), None)"
    using ParseInt_in_range [of s] by blast
next
  assume "decimal_integer s \<and> 2 ^ 63 \<le> denoted s"
  then show "ParseInt s = (9223372036854775807, Some ErrRange)"
    using ParseInt_above [of s] by blast
next
  assume "decimal_integer s \<and> denoted s < - (2 ^ 63)"
  then show "ParseInt s = (- 9223372036854775808, Some ErrRange)"
    using ParseInt_below [of s] by blast
next
  assume "\<not> decimal_integer s \<and> decimal_value (leading_digits s) \<le> 2 ^ 64 - 1"
  then show "ParseInt s = (0, Some ErrSyntax)"
    using ParseInt_malformed [of s] by blast
next
  assume "\<not> decimal_integer s \<and> decimal_value (leading_digits s) > 2 ^ 64 - 1"
  then show "ParseInt s =
        (if negative s then - 9223372036854775808 else 9223372036854775807, Some ErrRange)"
    using ParseInt_malformed_overflow [of s] by blast
qed

lemmas shape_defs =
  decimal_integer_def unsigned_part_def negative_def denoted_def decimal_value_def
  leading_digits_def is_digit_def

lemma shape_examples:
  "decimal_integer ''1700000100''" "denoted ''1700000100'' = 1700000100"
  "decimal_integer ''9223372036854775808''"
  "denoted ''9223372036854775808'' = 9223372036854775808"
  "decimal_integer ''-9223372036854775809''"
  "denoted ''-9223372036854775809'' = - 9223372036854775809"
  "\<not> decimal_integer ''soon''" "decimal_value (leading_digits ''soon'') = 0"
  "\<not> decimal_integer ''12 o'clock''" "decimal_value (leading_digits ''12 o'clock'') = 12"
  "\<not> decimal_integer ''99999999999999999999x''"
  "decimal_value (leading_digits ''99999999999999999999x'') = 99999999999999999999"
  "\<not> negative ''99999999999999999999x''"
  by (simp_all add: shape_defs)

theorem fetch_absent_or_deserialized_witness:
  "fst (fetchTask ''never'' two_tasks) = Inr None \<and>
   hashes two_tasks (''task:'' @ ''never'') = [] \<and> Id' later_task \<noteq> ''never'' \<and>
   hashes (snd (persistTask later_task two_tasks)) (''task:'' @ ''never'') = [] \<and>
   outcome two_tasks = None \<and> hashes two_tasks (''task:'' @ ''b'') \<noteq> [] \<and>
   fst (fetchTask ''b'' two_tasks) = Inr (Some earlier_task) \<and>
   decimal_integer ''1700000100'' \<and> ParseInt ''1700000100'' = (1700000100, None) \<and>
   decimal_integer ''9223372036854775808'' \<and>
   ParseInt ''9223372036854775808'' = (9223372036854775807, Some ErrRange) \<and>
   decimal_integer ''-9223372036854775809'' \<and>
   ParseInt ''-9223372036854775809'' = (- 9223372036854775808, Some ErrRange) \<and>
   \<not> decimal_integer ''soon'' \<and> ParseInt ''soon'' = (0, Some ErrSyntax) \<and>
   \<not> decimal_integer ''12 o'clock'' \<and> ParseInt ''12 o'clock'' = (0, Some ErrSyntax) \<and>
   \<not> decimal_integer ''99999999999999999999x'' \<and>
   ParseInt ''99999999999999999999x'' = (9223372036854775807, Some ErrRange)"
proof -
  note t = fetch_absent_or_deserialized
  have o: "outcome two_tasks = None"
    by (simp add: outcome_def two_tasks_eval)
  have h: "hashes two_tasks (''task:'' @ ''never'') = []"
    and h': "hashes two_tasks (''task:'' @ ''b'') \<noteq> []"
    by (simp_all add: two_tasks_eval)
  have i: "Id' later_task \<noteq> ''never''"
    by (simp add: later_task_def)
  have absent: "fst (fetchTask ''never'' two_tasks) = Inr None"
    using conjunct1 [OF t [where id' = "''never''" and b = two_tasks]] o h by simp
  note kept = mp [OF conjunct1 [OF conjunct2
      [OF t [where id' = "''never''" and b = two_tasks and task = later_task]]] conjI [OF h i]]
  have found: "fst (fetchTask ''b'' two_tasks) = Inr (Some earlier_task)"
    using mp [OF conjunct1 [OF conjunct2 [OF conjunct2
        [OF t [where id' = "''b''" and b = two_tasks]]]] conjI [OF o h']]
    by (simp add: two_tasks_eval map_index_def parse_examples earlier_task_def)
  have p1: "ParseInt ''1700000100'' = (1700000100, None)"
    using conjunct1 [OF conjunct2 [OF conjunct2 [OF conjunct2 [OF t [where s = "''1700000100''"]]]]]
    by (simp add: shape_examples)
  have p2: "ParseInt ''9223372036854775808'' = (9223372036854775807, Some ErrRange)"
    using conjunct1 [OF conjunct2 [OF conjunct2 [OF conjunct2 [OF conjunct2 [OF t [where s = "''9223372036854775808''"]]]]]]
    by (simp add: shape_examples)
  have p3: "ParseInt ''-9223372036854775809'' = (- 9223372036854775808, Some ErrRange)"
    using conjunct1 [OF conjunct2 [OF conjunct2 [OF conjunct2 [OF conjunct2 [OF conjunct2 [OF t [where s = "''-9223372036854775809''"]]]]]]]
    by (simp add: shape_examples)
  have p4: "ParseInt ''soon'' = (0, Some ErrSyntax)"
    using conjunct1 [OF conjunct2 [OF conjunct2 [OF conjunct2 [OF conjunct2 [OF conjunct2 [OF conjunct2 [OF t [where s = "''soon''"]]]]]]]]
    by (simp add: shape_examples)
  have p5: "ParseInt ''12 o'clock'' = (0, Some ErrSyntax)"
    using conjunct1 [OF conjunct2 [OF conjunct2 [OF conjunct2
        [OF conjunct2 [OF conjunct2 [OF conjunct2 [OF t [where s = "''12 o'clock''"]]]]]]]]
    by (simp add: shape_examples)
  have p6: "ParseInt ''99999999999999999999x'' = (9223372036854775807, Some ErrRange)"
    using conjunct2 [OF conjunct2 [OF conjunct2 [OF conjunct2
        [OF conjunct2 [OF conjunct2 [OF conjunct2 [OF t [where s = "''99999999999999999999x''"]]]]]]]]
    by (simp add: shape_examples)
  show ?thesis
    by (intro conjI)
       (rule absent h i kept o h' found shape_examples(1,3,5,7,9,11) p1 p2 p3 p4 p5 p6)+
qed

section \<open>The layout a create leaves\<close>

lemma hset_merge_fresh:
  "hset_merge [] [(''Id'', v1), (''Name'', v2), (''Description'', v3), (''Timestamp'', v4),
                  (''TaskerId'', v5), (''WorkerId'', v6)] =
     [(''Id'', v1), (''Name'', v2), (''Description'', v3), (''Timestamp'', v4),
      (''TaskerId'', v5), (''WorkerId'', v6)]"
  by (simp add: hset_merge_def)

lemma persistTask_fresh:
  assumes ok: "available 2 b" and fresh: "hashes b (''task:'' @ Id' task) = []"
    and clock: "\<bar>sint (Timestamp task)\<bar> \<le> 2 ^ 53"
  shows "fst (persistTask task b) = None"
    and "hashes (snd (persistTask task b)) (''task:'' @ Id' task) =
           [(''Id'', Id' task), (''Name'', Name task),
            (''Description'', Description task),
            (''Timestamp'', FormatInt (Timestamp task)),
            (''TaskerId'', TaskerId task), (''WorkerId'', WorkerId task)]"
    and "zsets (snd (persistTask task b)) ''tasks'' =
           AList.update (Id' task) (sint (Timestamp task)) (zsets b ''tasks'')"
    and "map_of (zsets (snd (persistTask task b)) ''tasks'') (Id' task) =
           Some (sint (Timestamp task))"
proof -
  note data = persistTask_data [OF persistTask_ran [OF ok, of task]]
  have score: "float64_of_int64 (Timestamp task) = sint (Timestamp task)"
    using clock by (rule float64_of_int64_exact)
  show "fst (persistTask task b) = None"
    by (rule persistTask_available(1) [OF ok])
  have "hashes (snd (persistTask task b)) (''task:'' @ Id' task) =
      hset_merge (hashes b (''task:'' @ Id' task))
        [(''Id'', Id' task), (''Name'', Name task), (''Description'', Description task),
         (''Timestamp'', FormatInt (Timestamp task)),
         (''TaskerId'', TaskerId task), (''WorkerId'', WorkerId task)]"
    using data by simp
  then show "hashes (snd (persistTask task b)) (''task:'' @ Id' task) =
           [(''Id'', Id' task), (''Name'', Name task),
            (''Description'', Description task),
            (''Timestamp'', FormatInt (Timestamp task)),
            (''TaskerId'', TaskerId task), (''WorkerId'', WorkerId task)]"
    by (simp only: fresh hset_merge_fresh)
  show z: "zsets (snd (persistTask task b)) ''tasks'' =
           AList.update (Id' task) (sint (Timestamp task)) (zsets b ''tasks'')"
    using data score by simp
  show "map_of (zsets (snd (persistTask task b)) ''tasks'') (Id' task) =
           Some (sint (Timestamp task))"
    unfolding z by (simp add: update_conv')
qed

text \<open>
  Claim C9. A task with id \<open>i\<close> is persisted as the field map under the key
  \<^verbatim>\<open>task:<i>\<close> with exactly the six fields \<^verbatim>\<open>Id\<close>, \<^verbatim>\<open>Name\<close>, \<^verbatim>\<open>Description\<close>,
  \<^verbatim>\<open>Timestamp\<close>, \<^verbatim>\<open>TaskerId\<close> and \<^verbatim>\<open>WorkerId\<close>, each holding the attribute as a string,
  the timestamp as the decimal text that parses back to it; and as the member \<open>i\<close> of the
  ordered set \<^verbatim>\<open>tasks\<close> whose score is the timestamp. This is what \<^verbatim>\<open>persistTask\<close> and
  \<^verbatim>\<open>createTask\<close> leave for the tasks the program creates: under a key that holds nothing
  yet, as the key of a new id does, and with a timestamp that a clock in seconds gives,
  at most \<open>2 ^ 53\<close> in magnitude. In general the write sets the six fields in whatever
  field map the key holds, the score is \<^verbatim>\<open>float64(timestamp)\<close>, and every field map in a
  state reached by completed creates and deletes has exactly the six fields under the key
  of its own id.
\<close>

theorem persisted_layout:
  "(available 2 b \<and> hashes b (''task:'' @ Id' task) = [] \<and>
    \<bar>sint (Timestamp task)\<bar> \<le> 2 ^ 53 \<longrightarrow>
      fst (persistTask task b) = None \<and>
      hashes (snd (persistTask task b)) (''task:'' @ Id' task) =
        [(''Id'', Id' task), (''Name'', Name task),
         (''Description'', Description task),
         (''Timestamp'', FormatInt (Timestamp task)),
         (''TaskerId'', TaskerId task), (''WorkerId'', WorkerId task)] \<and>
      ParseInt (FormatInt (Timestamp task)) = (Timestamp task, None) \<and>
      zsets (snd (persistTask task b)) ''tasks'' =
        AList.update (Id' task) (sint (Timestamp task)) (zsets b ''tasks'') \<and>
      map_of (zsets (snd (persistTask task b)) ''tasks'') (Id' task) =
        Some (sint (Timestamp task))) \<and>
   (available 2 b \<and> hashes b (''task:'' @ uuid) = [] \<and> \<bar>sint now\<bar> \<le> 2 ^ 53 \<longrightarrow>
      hashes (snd (createTask uuid now taskerId workerId name description b))
          (''task:'' @ uuid) =
        [(''Id'', uuid), (''Name'', name), (''Description'', description),
         (''Timestamp'', FormatInt now),
         (''TaskerId'', taskerId), (''WorkerId'', workerId)] \<and>
      map_of (zsets (snd (createTask uuid now taskerId workerId name description b)) ''tasks'')
          uuid = Some (sint now)) \<and>
   (available 2 b \<longrightarrow>
      fst (persistTask task b) = None \<and>
      map_of (hashes (snd (persistTask task b)) (''task:'' @ Id' task)) =
        (map_of (hashes b (''task:'' @ Id' task)))
          (''Id'' \<mapsto> Id' task, ''Name'' \<mapsto> Name task,
           ''Description'' \<mapsto> Description task,
           ''Timestamp'' \<mapsto> FormatInt (Timestamp task),
           ''TaskerId'' \<mapsto> TaskerId task, ''WorkerId'' \<mapsto> WorkerId task) \<and>
      map_of (zsets (snd (persistTask task b)) ''tasks'') (Id' task) =
        Some (float64_of_int64 (Timestamp task))) \<and>
   (available 2 b \<and>
    fst ` set (hashes b (''task:'' @ Id' task)) \<subseteq>
      {''Id'', ''Name'', ''Description'', ''Timestamp'', ''TaskerId'', ''WorkerId''} \<longrightarrow>
      fst ` set (hashes (snd (persistTask task b)) (''task:'' @ Id' task)) =
        {''Id'', ''Name'', ''Description'', ''Timestamp'', ''TaskerId'', ''WorkerId''}) \<and>
   (\<bar>sint (Timestamp task)\<bar> \<le> 2 ^ 53 \<longrightarrow>
      float64_of_int64 (Timestamp task) = sint (Timestamp task)) \<and>
   (reachable P b \<longrightarrow> layout b)"
proof (intro conjI impI)
  assume a: "available 2 b \<and> hashes b (''task:'' @ Id' task) = [] \<and>
    \<bar>sint (Timestamp task)\<bar> \<le> 2 ^ 53"
  then have ok: "available 2 b" and fresh: "hashes b (''task:'' @ Id' task) = []"
    and clock: "\<bar>sint (Timestamp task)\<bar> \<le> 2 ^ 53"
    by blast+
  show "fst (persistTask task b) = None"
    by (rule persistTask_fresh(1) [OF ok fresh clock])
  show "hashes (snd (persistTask task b)) (''task:'' @ Id' task) =
        [(''Id'', Id' task), (''Name'', Name task),
         (''Description'', Description task),
         (''Timestamp'', FormatInt (Timestamp task)),
         (''TaskerId'', TaskerId task), (''WorkerId'', WorkerId task)]"
    by (rule persistTask_fresh(2) [OF ok fresh clock])
  show "ParseInt (FormatInt (Timestamp task)) = (Timestamp task, None)"
    by (rule ParseInt_FormatInt)
  show "zsets (snd (persistTask task b)) ''tasks'' =
        AList.update (Id' task) (sint (Timestamp task)) (zsets b ''tasks'')"
    by (rule persistTask_fresh(3) [OF ok fresh clock])
  show "map_of (zsets (snd (persistTask task b)) ''tasks'') (Id' task) =
        Some (sint (Timestamp task))"
    by (rule persistTask_fresh(4) [OF ok fresh clock])
next
  let ?made = "\<lparr>Id' = uuid, Name = name, Description = description,
                 Timestamp = now, TaskerId = taskerId, WorkerId = workerId\<rparr>"
  assume a: "available 2 b \<and> hashes b (''task:'' @ uuid) = [] \<and> \<bar>sint now\<bar> \<le> 2 ^ 53"
  then have ok: "available 2 b" and fresh: "hashes b (''task:'' @ Id' ?made) = []"
    and clock: "\<bar>sint (Timestamp ?made)\<bar> \<le> 2 ^ 53"
    by simp_all
  have state: "snd (createTask uuid now taskerId workerId name description b) =
      snd (persistTask ?made b)"
    by (rule createTask_state)
  show "hashes (snd (createTask uuid now taskerId workerId name description b))
          (''task:'' @ uuid) =
        [(''Id'', uuid), (''Name'', name), (''Description'', description),
         (''Timestamp'', FormatInt now),
         (''TaskerId'', taskerId), (''WorkerId'', workerId)]"
    using persistTask_fresh(2) [OF ok fresh clock] unfolding state by simp
  show "map_of (zsets (snd (createTask uuid now taskerId workerId name description b)) ''tasks'')
          uuid = Some (sint now)"
    using persistTask_fresh(4) [OF ok fresh clock] unfolding state by simp
next
  assume ok: "available 2 b"
  note data = persistTask_data [OF persistTask_ran [OF ok, of task]]
  show "fst (persistTask task b) = None"
    by (rule persistTask_available(1) [OF ok])
  have "hashes (snd (persistTask task b)) (''task:'' @ Id' task) =
      hset_merge (hashes b (''task:'' @ Id' task))
        [(''Id'', Id' task), (''Name'', Name task), (''Description'', Description task),
         (''Timestamp'', FormatInt (Timestamp task)),
         (''TaskerId'', TaskerId task), (''WorkerId'', WorkerId task)]"
    using data by simp
  then show "map_of (hashes (snd (persistTask task b)) (''task:'' @ Id' task)) =
        (map_of (hashes b (''task:'' @ Id' task)))
          (''Id'' \<mapsto> Id' task, ''Name'' \<mapsto> Name task,
           ''Description'' \<mapsto> Description task,
           ''Timestamp'' \<mapsto> FormatInt (Timestamp task),
           ''TaskerId'' \<mapsto> TaskerId task, ''WorkerId'' \<mapsto> WorkerId task)"
    by (simp only: map_of_hset_merge_six)
  have "zsets (snd (persistTask task b)) ''tasks'' =
      AList.update (Id' task) (float64_of_int64 (Timestamp task)) (zsets b ''tasks'')"
    using data by simp
  then show "map_of (zsets (snd (persistTask task b)) ''tasks'') (Id' task) =
        Some (float64_of_int64 (Timestamp task))"
    by (simp add: update_conv')
next
  assume a: "available 2 b \<and>
    fst ` set (hashes b (''task:'' @ Id' task)) \<subseteq>
      {''Id'', ''Name'', ''Description'', ''Timestamp'', ''TaskerId'', ''WorkerId''}"
  then have ok: "available 2 b" ..
  note data = persistTask_data [OF persistTask_ran [OF ok, of task]]
  have "hashes (snd (persistTask task b)) (''task:'' @ Id' task) =
      hset_merge (hashes b (''task:'' @ Id' task))
        [(''Id'', Id' task), (''Name'', Name task), (''Description'', Description task),
         (''Timestamp'', FormatInt (Timestamp task)),
         (''TaskerId'', TaskerId task), (''WorkerId'', WorkerId task)]"
    using data by simp
  then show "fst ` set (hashes (snd (persistTask task b)) (''task:'' @ Id' task)) =
        {''Id'', ''Name'', ''Description'', ''Timestamp'', ''TaskerId'', ''WorkerId''}"
    using fields_after_merge [OF conjunct2 [OF a]] by (simp only:)
next
  assume "\<bar>sint (Timestamp task)\<bar> \<le> 2 ^ 53"
  then show "float64_of_int64 (Timestamp task) = sint (Timestamp task)"
    by (rule float64_of_int64_exact)
next
  assume "reachable P b"
  then show "layout b" by (rule reachable_layout)
qed

theorem persisted_layout_witness:
  "available 2 empty_store \<and> hashes empty_store (''task:'' @ Id' later_task) = [] \<and>
   \<bar>sint (Timestamp later_task)\<bar> \<le> 2 ^ 53 \<and>
   fst (persistTask later_task empty_store) = None \<and>
   hashes (snd (persistTask later_task empty_store)) ''task:a'' =
     [(''Id'', ''a''), (''Name'', ''Task for Worker1''),
      (''Description'', ''Description for Worker1''), (''Timestamp'', ''1700000300''),
      (''TaskerId'', ''tsk-1''), (''WorkerId'', ''worker1'')] \<and>
   zsets (snd (persistTask later_task empty_store)) ''tasks'' = [(''a'', 1700000300)] \<and>
   hashes empty_store (''task:'' @ ''a'') = [] \<and> \<bar>sint (1700000300 :: 64 word)\<bar> \<le> 2 ^ 53 \<and>
   hashes (snd (createTask ''a'' 1700000300 ''tsk-1'' ''worker1'' ''Task for Worker1''
             ''Description for Worker1'' empty_store)) ''task:a'' =
     [(''Id'', ''a''), (''Name'', ''Task for Worker1''),
      (''Description'', ''Description for Worker1''), (''Timestamp'', ''1700000300''),
      (''TaskerId'', ''tsk-1''), (''WorkerId'', ''worker1'')] \<and>
   fst ` set (hashes empty_store (''task:'' @ Id' later_task)) \<subseteq>
     {''Id'', ''Name'', ''Description'', ''Timestamp'', ''TaskerId'', ''WorkerId''} \<and>
   fst ` set (hashes (snd (persistTask later_task empty_store)) (''task:'' @ Id' later_task)) =
     {''Id'', ''Name'', ''Description'', ''Timestamp'', ''TaskerId'', ''WorkerId''} \<and>
   float64_of_int64 (Timestamp later_task) = sint (Timestamp later_task) \<and>
   reachable (\<lambda>_. True) two_tasks \<and> layout two_tasks"
proof -
  note t = persisted_layout [where b = empty_store and task = later_task
      and P = "\<lambda>_. True" and uuid = "''a''" and now = 1700000300
      and taskerId = "''tsk-1''" and workerId = "''worker1''"
      and name = "''Task for Worker1''" and description = "''Description for Worker1''"]
  note t' = persisted_layout [where b = two_tasks and P = "\<lambda>_. True"]
  have ok: "available 2 empty_store"
    by (simp add: available_def empty_store_def)
  have fresh: "hashes empty_store (''task:'' @ Id' later_task) = []"
    and fresh': "hashes empty_store (''task:'' @ ''a'') = []"
    by (simp_all add: empty_store_def)
  have none: "fst ` set (hashes empty_store (''task:'' @ Id' later_task)) \<subseteq>
     {''Id'', ''Name'', ''Description'', ''Timestamp'', ''TaskerId'', ''WorkerId''}"
    by (simp only: fresh list.set image_empty empty_subsetI)
  have clock: "\<bar>sint (Timestamp later_task)\<bar> \<le> 2 ^ 53"
    and clock': "\<bar>sint (1700000300 :: 64 word)\<bar> \<le> 2 ^ 53"
    by (simp_all add: later_task_def)
  note first = mp [OF conjunct1 [OF t] conjI [OF ok conjI [OF fresh clock]]]
  note ran = conjunct1 [OF first]
  have fields: "hashes (snd (persistTask later_task empty_store)) ''task:a'' =
     [(''Id'', ''a''), (''Name'', ''Task for Worker1''),
      (''Description'', ''Description for Worker1''), (''Timestamp'', ''1700000300''),
      (''TaskerId'', ''tsk-1''), (''WorkerId'', ''worker1'')]"
    using conjunct1 [OF conjunct2 [OF first]] by (simp add: later_task_def format_example)
  have index: "zsets (snd (persistTask later_task empty_store)) ''tasks'' =
      [(''a'', 1700000300)]"
    using conjunct1 [OF conjunct2 [OF conjunct2 [OF conjunct2 [OF first]]]]
    by (simp add: later_task_def empty_store_def)
  note second = mp [OF conjunct1 [OF conjunct2 [OF t]] conjI [OF ok conjI [OF fresh' clock']]]
  have made: "hashes (snd (createTask ''a'' 1700000300 ''tsk-1'' ''worker1''
             ''Task for Worker1'' ''Description for Worker1'' empty_store)) ''task:a'' =
     [(''Id'', ''a''), (''Name'', ''Task for Worker1''),
      (''Description'', ''Description for Worker1''), (''Timestamp'', ''1700000300''),
      (''TaskerId'', ''tsk-1''), (''WorkerId'', ''worker1'')]"
    using conjunct1 [OF second] by (simp add: format_example)
  note rest = conjunct2 [OF conjunct2 [OF conjunct2 [OF t]]]
  note six = mp [OF conjunct1 [OF rest] conjI [OF ok none]]
  note same = mp [OF conjunct1 [OF conjunct2 [OF rest]] clock]
  note lay = mp [OF conjunct2 [OF conjunct2 [OF conjunct2 [OF conjunct2 [OF conjunct2 [OF t']]]]]
      reachable_two_tasks]
  show ?thesis
    by (intro conjI)
       (rule ok fresh clock ran fields index fresh' clock' made none six same
          reachable_two_tasks lay)+
qed

end
